theory Spec2Isabelle
  imports Main "HOL-Library.Sublist" "HOL-Library.Char_ord" "HOL-Library.List_Lexorder"
begin

section \<open>Python text operations used by the scripts\<close>

text \<open>
  A Python \<open>str\<close> is represented by its UTF-8 encoding, a \<open>string\<close> whose characters are
  bytes: \<open>bytes.decode()\<close> succeeds exactly on well-formed UTF-8 and is then the identity on
  this representation, and \<open>str.encode()\<close> is the identity. Substring tests and
  \<open>str.count\<close> with ASCII needles give the same answer on the encoding as on the code
  points. The tables of the Unicode-aware operations \<open>\d\<close>, \<open>str.lower\<close> and \<open>str.strip\<close>
  are those of Unicode 14.0, the character database of Python 3.11.
\<close>

definition LF :: char where
  "LF = CHR 0x0A"

definition CRLF :: string where
  "CRLF = [CHR 0x0D, CHR 0x0A]"

text \<open>The non-ASCII characters the scripts print, as UTF-8.\<close>

definition arrow_right :: string where
  "arrow_right = [CHR 0xE2, CHR 0x86, CHR 0x92]"

definition arrow_left :: string where
  "arrow_left = [CHR 0xE2, CHR 0x86, CHR 0x90]"

definition cross_mark :: string where
  "cross_mark = [CHR 0xE2, CHR 0x9D, CHR 0x8C]"

definition check_mark :: string where
  "check_mark = [CHR 0xE2, CHR 0x9C, CHR 0x85]"

definition party :: string where
  "party = [CHR 0xF0, CHR 0x9F, CHR 0x8E, CHR 0x89]"

definition warning_sign :: string where
  "warning_sign = [CHR 0xE2, CHR 0x9A, CHR 0xA0, CHR 0xEF, CHR 0xB8, CHR 0x8F]"

definition mailbox_sign :: string where
  "mailbox_sign = [CHR 0xF0, CHR 0x9F, CHR 0x93, CHR 0xAC]"

definition envelope_sign :: string where
  "envelope_sign = [CHR 0xF0, CHR 0x9F, CHR 0x93, CHR 0xA7]"

definition magnifier_sign :: string where
  "magnifier_sign = [CHR 0xF0, CHR 0x9F, CHR 0x94, CHR 0x8D]"

definition incoming_sign :: string where
  "incoming_sign = [CHR 0xF0, CHR 0x9F, CHR 0x93, CHR 0xA8]"

definition chart_sign :: string where
  "chart_sign = [CHR 0xF0, CHR 0x9F, CHR 0x93, CHR 0x8A]"

definition page_sign :: string where
  "page_sign = [CHR 0xF0, CHR 0x9F, CHR 0x93, CHR 0x84]"

text \<open>\<open>needle in hay\<close>: the needle occurs as a contiguous run of \<open>hay\<close>.\<close>

fun py_in :: "string \<Rightarrow> string \<Rightarrow> bool" where
  "py_in needle [] = (needle = [])"
| "py_in needle (c # cs) = (prefix needle (c # cs) \<or> py_in needle cs)"

text \<open>
  \<open>text.count(sub)\<close>: the number of non-overlapping occurrences, scanning from the left;
  for the empty \<open>sub\<close> Python answers \<open>len(text) + 1\<close>.
\<close>

function py_count :: "string \<Rightarrow> string \<Rightarrow> nat" where
  "py_count txt sub =
     (if sub = [] then length txt + 1
      else if txt = [] then 0
      else if prefix sub txt then 1 + py_count (drop (length sub) txt) sub
      else py_count (tl txt) sub)"
  by pat_completeness auto
termination
  by (relation "measure (\<lambda>(txt, sub). length txt)") (auto simp: neq_Nil_conv)

declare py_count.simps [simp del]

text \<open>\<open>text.split(d)\<close> for a one-character separator: never empty, \<open>''.split(d) = ['']\<close>.\<close>

fun split_on :: "char \<Rightarrow> string \<Rightarrow> string list" where
  "split_on d [] = [[]]"
| "split_on d (c # cs) =
     (if c = d then [] # split_on d cs
      else (case split_on d cs of l # ls \<Rightarrow> (c # l) # ls | [] \<Rightarrow> [[c]]))"

text \<open>
  \<open>str.lower()\<close>, as far as its ASCII characters go, which is what the scripts read of
  it (they look for \<open>spf=\<close> and \<open>dkim=\<close> in the result). Besides the 26 upper-case letters
  two characters have an ASCII character in their lower case: U+212A KELVIN SIGN becomes
  \<open>k\<close>, and U+0130 becomes \<open>i\<close> followed by U+0307. Every other character outside ASCII has
  a lower case outside ASCII and is left as it is here: the result has the ASCII
  characters of \<open>str.lower()\<close>, in the same runs.
\<close>

definition lower_char :: "char \<Rightarrow> char" where
  "lower_char c =
     (case map_of (zip ''ABCDEFGHIJKLMNOPQRSTUVWXYZ'' ''abcdefghijklmnopqrstuvwxyz'') c of
        Some l \<Rightarrow> l
      | None \<Rightarrow> c)"

fun py_lower :: "string \<Rightarrow> string" where
  "py_lower [] = []"
| "py_lower (a # s) =
     (if a = CHR 0xE2 \<and> take 2 s = [CHR 0x84, CHR 0xAA] then CHR ''k'' # py_lower (drop 2 s)
      else if a = CHR 0xC4 \<and> take 1 s = [CHR 0xB0]
      then CHR ''i'' # CHR 0xCC # CHR 0x87 # py_lower (drop 1 s)
      else lower_char a # py_lower s)"

text \<open>
  \<open>str.strip()\<close> removes the white space of both ends: the ten ASCII characters for which
  \<open>str.isspace\<close> holds, and U+0085, U+00A0, U+1680, U+2000 to U+200A, U+2028, U+2029,
  U+202F, U+205F and U+3000, which are two or three bytes.
\<close>

definition is_space :: "char \<Rightarrow> bool" where
  "is_space c = (c \<in> set [CHR 0x09, CHR 0x0A, CHR 0x0B, CHR 0x0C, CHR 0x0D,
                            CHR 0x1C, CHR 0x1D, CHR 0x1E, CHR 0x1F, CHR 0x20])"

definition space2 :: "string list" where
  "space2 = [[CHR 0xC2, CHR 0x85], [CHR 0xC2, CHR 0xA0]]"

definition space3 :: "string list" where
  "space3 =
     [[CHR 0xE1, CHR 0x9A, CHR 0x80],
      [CHR 0xE2, CHR 0x80, CHR 0x80], [CHR 0xE2, CHR 0x80, CHR 0x81],
      [CHR 0xE2, CHR 0x80, CHR 0x82], [CHR 0xE2, CHR 0x80, CHR 0x83],
      [CHR 0xE2, CHR 0x80, CHR 0x84], [CHR 0xE2, CHR 0x80, CHR 0x85],
      [CHR 0xE2, CHR 0x80, CHR 0x86], [CHR 0xE2, CHR 0x80, CHR 0x87],
      [CHR 0xE2, CHR 0x80, CHR 0x88], [CHR 0xE2, CHR 0x80, CHR 0x89],
      [CHR 0xE2, CHR 0x80, CHR 0x8A], [CHR 0xE2, CHR 0x80, CHR 0xA8],
      [CHR 0xE2, CHR 0x80, CHR 0xA9], [CHR 0xE2, CHR 0x80, CHR 0xAF],
      [CHR 0xE2, CHR 0x81, CHR 0x9F], [CHR 0xE3, CHR 0x80, CHR 0x80]]"

text \<open>
  The white space at the beginning of \<open>s\<close> removed, \<open>t2\<close> and \<open>t3\<close> being the characters of
  two and of three bytes to remove. From the right the same is done on the reversed
  text with the reversed characters.
\<close>

fun strip_left :: "string list \<Rightarrow> string list \<Rightarrow> string \<Rightarrow> string" where
  "strip_left t2 t3 [] = []"
| "strip_left t2 t3 (a # s) =
     (if is_space a then strip_left t2 t3 s
      else if a # take 1 s \<in> set t2 then strip_left t2 t3 (drop 1 s)
      else if a # take 2 s \<in> set t3 then strip_left t2 t3 (drop 2 s)
      else a # s)"

definition py_strip :: "string \<Rightarrow> string" where
  "py_strip s =
     rev (strip_left (map rev space2) (map rev space3) (rev (strip_left space2 space3 s)))"

text \<open>
  \<open>\d\<close> in a pattern of type \<open>str\<close> is a decimal digit of any script (category Nd), and
  \<open>int()\<close> reads them all. The digits come in runs of ten consecutive code points from
  the zero on, which differ in the last byte only: \<open>nd_table\<close> has, for each of the 66
  runs, the bytes before the last one and the last byte of the zero.
\<close>

definition nd_table :: "(string \<times> nat) list" where
  "nd_table =
     [([], 0x30), ([CHR 0xD9], 0xA0), ([CHR 0xDB], 0xB0), ([CHR 0xDF], 0x80),
      ([CHR 0xE0, CHR 0xA5], 0xA6), ([CHR 0xE0, CHR 0xA7], 0xA6), ([CHR 0xE0, CHR 0xA9], 0xA6),
      ([CHR 0xE0, CHR 0xAB], 0xA6), ([CHR 0xE0, CHR 0xAD], 0xA6), ([CHR 0xE0, CHR 0xAF], 0xA6),
      ([CHR 0xE0, CHR 0xB1], 0xA6), ([CHR 0xE0, CHR 0xB3], 0xA6), ([CHR 0xE0, CHR 0xB5], 0xA6),
      ([CHR 0xE0, CHR 0xB7], 0xA6), ([CHR 0xE0, CHR 0xB9], 0x90), ([CHR 0xE0, CHR 0xBB], 0x90),
      ([CHR 0xE0, CHR 0xBC], 0xA0), ([CHR 0xE1, CHR 0x81], 0x80), ([CHR 0xE1, CHR 0x82], 0x90),
      ([CHR 0xE1, CHR 0x9F], 0xA0), ([CHR 0xE1, CHR 0xA0], 0x90), ([CHR 0xE1, CHR 0xA5], 0x86),
      ([CHR 0xE1, CHR 0xA7], 0x90), ([CHR 0xE1, CHR 0xAA], 0x80), ([CHR 0xE1, CHR 0xAA], 0x90),
      ([CHR 0xE1, CHR 0xAD], 0x90), ([CHR 0xE1, CHR 0xAE], 0xB0), ([CHR 0xE1, CHR 0xB1], 0x80),
      ([CHR 0xE1, CHR 0xB1], 0x90), ([CHR 0xEA, CHR 0x98], 0xA0), ([CHR 0xEA, CHR 0xA3], 0x90),
      ([CHR 0xEA, CHR 0xA4], 0x80), ([CHR 0xEA, CHR 0xA7], 0x90), ([CHR 0xEA, CHR 0xA7], 0xB0),
      ([CHR 0xEA, CHR 0xA9], 0x90), ([CHR 0xEA, CHR 0xAF], 0xB0), ([CHR 0xEF, CHR 0xBC], 0x90),
      ([CHR 0xF0, CHR 0x90, CHR 0x92], 0xA0), ([CHR 0xF0, CHR 0x90, CHR 0xB4], 0xB0),
      ([CHR 0xF0, CHR 0x91, CHR 0x81], 0xA6), ([CHR 0xF0, CHR 0x91, CHR 0x83], 0xB0),
      ([CHR 0xF0, CHR 0x91, CHR 0x84], 0xB6), ([CHR 0xF0, CHR 0x91, CHR 0x87], 0x90),
      ([CHR 0xF0, CHR 0x91, CHR 0x8B], 0xB0), ([CHR 0xF0, CHR 0x91, CHR 0x91], 0x90),
      ([CHR 0xF0, CHR 0x91, CHR 0x93], 0x90), ([CHR 0xF0, CHR 0x91, CHR 0x99], 0x90),
      ([CHR 0xF0, CHR 0x91, CHR 0x9B], 0x80), ([CHR 0xF0, CHR 0x91, CHR 0x9C], 0xB0),
      ([CHR 0xF0, CHR 0x91, CHR 0xA3], 0xA0), ([CHR 0xF0, CHR 0x91, CHR 0xA5], 0x90),
      ([CHR 0xF0, CHR 0x91, CHR 0xB1], 0x90), ([CHR 0xF0, CHR 0x91, CHR 0xB5], 0x90),
      ([CHR 0xF0, CHR 0x91, CHR 0xB6], 0xA0), ([CHR 0xF0, CHR 0x96, CHR 0xA9], 0xA0),
      ([CHR 0xF0, CHR 0x96, CHR 0xAB], 0x80), ([CHR 0xF0, CHR 0x96, CHR 0xAD], 0x90),
      ([CHR 0xF0, CHR 0x9D, CHR 0x9F], 0x8E), ([CHR 0xF0, CHR 0x9D, CHR 0x9F], 0x98),
      ([CHR 0xF0, CHR 0x9D, CHR 0x9F], 0xA2), ([CHR 0xF0, CHR 0x9D, CHR 0x9F], 0xAC),
      ([CHR 0xF0, CHR 0x9D, CHR 0x9F], 0xB6), ([CHR 0xF0, CHR 0x9E, CHR 0x85], 0x80),
      ([CHR 0xF0, CHR 0x9E, CHR 0x8B], 0xB0), ([CHR 0xF0, CHR 0x9E, CHR 0xA5], 0x90),
      ([CHR 0xF0, CHR 0x9F, CHR 0xAF], 0xB0)]"

text \<open>The digit at the beginning of \<open>s\<close>: its value, and what follows it.\<close>

definition digit_at :: "string \<Rightarrow> (nat \<times> string) option" where
  "digit_at s =
     (case filter (\<lambda>(lead, z). prefix lead s \<and>
                     (case drop (length lead) s of
                        [] \<Rightarrow> False
                      | b # r \<Rightarrow> z \<le> of_char b \<and> of_char b \<le> z + 9)) nd_table of
        [] \<Rightarrow> None
      | (lead, z) # _ \<Rightarrow>
          Some (of_char (hd (drop (length lead) s)) - z, drop (Suc (length lead)) s))"

text \<open>The longest run of digits at the beginning of \<open>s\<close>, as values, and what follows it.\<close>

function take_digits :: "string \<Rightarrow> nat list \<times> string" where
  "take_digits s =
     (case digit_at s of
        None \<Rightarrow> ([], s)
      | Some (v, r) \<Rightarrow> (case take_digits r of (vs, t) \<Rightarrow> (v # vs, t)))"
  by pat_completeness auto
termination
proof (relation "measure length")
  show "wf (measure length)" by simp
next
  fix s :: string and x2 v r
  assume "digit_at s = Some x2" and "(v, r) = x2"
  then have d: "digit_at s = Some (v, r)" by simp
  then obtain lead z rest
    where f: "filter (\<lambda>(lead, z). prefix lead s \<and>
                     (case drop (length lead) s of
                        [] \<Rightarrow> False
                      | b # r \<Rightarrow> z \<le> of_char b \<and> of_char b \<le> z + 9)) nd_table
              = (lead, z) # rest"
      and r: "r = drop (Suc (length lead)) s"
    unfolding digit_at_def by (auto split: list.splits)
  from f have "drop (length lead) s \<noteq> []"
    by (auto dest!: filter_eq_ConsD split: list.splits)
  then have "length lead < length s" by simp
  with r show "(r, s) \<in> measure length" by simp
qed

declare take_digits.simps [simp del]

text \<open>\<open>int(s)\<close> on a run of decimal digits, given by their values.\<close>

definition py_int :: "nat list \<Rightarrow> nat" where
  "py_int ds = foldl (\<lambda>a v. 10 * a + v) 0 ds"

text \<open>\<open>str(n)\<close> for an integer: decimal, no leading zero, a minus sign when negative.\<close>

function str_nat :: "nat \<Rightarrow> string" where
  "str_nat n =
     (if n < 10 then [''0123456789'' ! n]
      else str_nat (n div 10) @ [''0123456789'' ! (n mod 10)])"
  by pat_completeness auto
termination
  by (relation "measure id") auto

declare str_nat.simps [simp del]

definition py_str :: "int \<Rightarrow> string" where
  "py_str i = (if i < 0 then CHR ''-'' # str_nat (nat (- i)) else str_nat (nat i))"

text \<open>
  \<open>re.search(r'\* (\d+) EXISTS', text)\<close>, returning group 1 of the leftmost match as the
  values of its digits. At one start position the pattern can only match with the whole
  run of digits after \<open>"* "\<close>: a shorter run would have to be followed by a space where a
  digit stands.
\<close>

definition match_exists_at :: "string \<Rightarrow> nat list option" where
  "match_exists_at s =
     (if prefix ''* '' s
      then (case take_digits (drop 2 s) of
              (ds, rest) \<Rightarrow> if ds \<noteq> [] \<and> prefix '' EXISTS'' rest then Some ds else None)
      else None)"

fun re_search_exists :: "string \<Rightarrow> nat list option" where
  "re_search_exists [] = None"
| "re_search_exists (c # cs) =
     (case match_exists_at (c # cs) of
        Some ds \<Rightarrow> Some ds
      | None \<Rightarrow> re_search_exists cs)"

text \<open>Well-formed UTF-8 (RFC 3629), which is what the strict decoder of \<open>decode()\<close> accepts.\<close>

definition cont_byte :: "nat \<Rightarrow> bool" where
  "cont_byte b = (0x80 \<le> b \<and> b \<le> 0xBF)"

fun utf8_ok :: "nat list \<Rightarrow> bool" where
  "utf8_ok [] = True"
| "utf8_ok (b # bs) =
     (if b < 0x80 then utf8_ok bs
      else if 0xC2 \<le> b \<and> b \<le> 0xDF then
        (case bs of c1 # r \<Rightarrow> cont_byte c1 \<and> utf8_ok r | _ \<Rightarrow> False)
      else if 0xE0 \<le> b \<and> b \<le> 0xEF then
        (case bs of
           c1 # c2 # r \<Rightarrow>
             (if b = 0xE0 then 0xA0 \<le> c1 \<and> c1 \<le> 0xBF
              else if b = 0xED then 0x80 \<le> c1 \<and> c1 \<le> 0x9F
              else cont_byte c1) \<and> cont_byte c2 \<and> utf8_ok r
         | _ \<Rightarrow> False)
      else if 0xF0 \<le> b \<and> b \<le> 0xF4 then
        (case bs of
           c1 # c2 # c3 # r \<Rightarrow>
             (if b = 0xF0 then 0x90 \<le> c1 \<and> c1 \<le> 0xBF
              else if b = 0xF4 then 0x80 \<le> c1 \<and> c1 \<le> 0x8F
              else cont_byte c1) \<and> cont_byte c2 \<and> cont_byte c3 \<and> utf8_ok r
         | _ \<Rightarrow> False)
      else False)"

text \<open>\<open>s[:n]\<close> counts code points: continuation bytes stay with their leading byte.\<close>

fun take_cp :: "nat \<Rightarrow> string \<Rightarrow> string" where
  "take_cp n [] = []"
| "take_cp n (c # cs) =
     (if cont_byte (of_char c) then c # take_cp n cs
      else (case n of 0 \<Rightarrow> [] | Suc m \<Rightarrow> c # take_cp m cs))"

section \<open>The environment: standard output, one TCP socket, the clock\<close>

text \<open>
  What a script does to the outside world is recorded as a list of events, oldest first.
  The peer of the socket is a script of arrivals: by the time of the next \<open>recv\<close> either
  more bytes have arrived (\<open>Data\<close>; no bytes at all is the peer's orderly shutdown, which
  \<open>recv\<close> reports as the empty string) or the connection has failed (\<open>Reset\<close>, \<open>recv\<close>
  raises \<open>OSError\<close>). When the script of arrivals is used up nothing more arrives.
  Only runs in which every \<open>recv\<close> returns are described: a \<open>recv\<close> that blocks for ever
  has no arrival. \<open>sendall\<close>, \<open>print\<close>, \<open>sleep\<close> and \<open>close\<close> do not fail in the model.
\<close>

datatype event =
    Print string
  | Connect string nat
  | SendAll string
  | Sleep nat
  | Recv nat
  | Close
  | Smtp string
  | SmtpClose

datatype arrival = Data string | Reset

datatype py_exn = OSError | UnicodeDecodeError | ValueError | SMTPException string

record mailfile =
  fname :: string
  ctime :: "py_exn + int"
  file_text :: "py_exn + string"

record world =
  trace :: "event list"
  pending :: string
  arrivals :: "arrival list"
  reachable :: bool
  dirs :: "string \<rightharpoonup> mailfile list"
  smtp_fail :: "(nat \<times> string) option"

type_synonym 'a io = "world \<Rightarrow> (py_exn + 'a) \<times> world"

definition io_return :: "'a \<Rightarrow> 'a io" where
  "io_return x = (\<lambda>w. (Inr x, w))"

definition io_raise :: "py_exn \<Rightarrow> 'a io" where
  "io_raise e = (\<lambda>w. (Inl e, w))"

definition io_bind :: "'a io \<Rightarrow> ('a \<Rightarrow> 'b io) \<Rightarrow> 'b io" where
  "io_bind m k = (\<lambda>w. case m w of (Inl e, w') \<Rightarrow> (Inl e, w') | (Inr x, w') \<Rightarrow> k x w')"

definition io_then :: "'a io \<Rightarrow> 'b io \<Rightarrow> 'b io" where
  "io_then m n = io_bind m (\<lambda>_. n)"

text \<open>A list of statements run in order; the first exception ends it.\<close>

fun io_seq :: "unit io list \<Rightarrow> unit io" where
  "io_seq [] = io_return ()"
| "io_seq (m # ms) = io_then m (io_seq ms)"

text \<open>\<open>try: m except Exception as e: h e\<close>.\<close>

definition io_catch :: "'a io \<Rightarrow> (py_exn \<Rightarrow> 'a io) \<Rightarrow> 'a io" where
  "io_catch m h = (\<lambda>w. case m w of (Inl e, w') \<Rightarrow> h e w' | (Inr x, w') \<Rightarrow> (Inr x, w'))"

definition emit :: "event \<Rightarrow> unit io" where
  "emit ev = (\<lambda>w. (Inr (), w\<lparr>trace := trace w @ [ev]\<rparr>))"

definition print_line :: "string \<Rightarrow> unit io" where
  "print_line s = emit (Print s)"

definition time_sleep :: "nat \<Rightarrow> unit io" where
  "time_sleep ms = emit (Sleep ms)"

definition sock_connect :: "string \<Rightarrow> nat \<Rightarrow> unit io" where
  "sock_connect host port =
     (\<lambda>w. if reachable w then emit (Connect host port) w else (Inl OSError, w))"

definition sock_sendall :: "string \<Rightarrow> unit io" where
  "sock_sendall bs = emit (SendAll bs)"

text \<open>
  \<open>sock.recv(n)\<close>: one read of at most \<open>n\<close> of the bytes that have arrived; what it does
  not take stays in the socket for the next read.
\<close>

definition sock_recv :: "nat \<Rightarrow> string io" where
  "sock_recv n =
     (\<lambda>w. let w1 = w\<lparr>trace := trace w @ [Recv n]\<rparr> in
        case arrivals w of
          [] \<Rightarrow> (Inr (take n (pending w)), w1\<lparr>pending := drop n (pending w)\<rparr>)
        | Reset # rest \<Rightarrow> (Inl OSError, w1\<lparr>arrivals := rest\<rparr>)
        | Data bs # rest \<Rightarrow>
            (Inr (take n (pending w @ bs)),
             w1\<lparr>pending := drop n (pending w @ bs), arrivals := rest\<rparr>))"

definition decode :: "string \<Rightarrow> string io" where
  "decode bs = (if utf8_ok (map of_char bs) then io_return bs else io_raise UnicodeDecodeError)"

definition sock_close :: "unit io" where
  "sock_close = emit Close"

text \<open>
  The exit status of \<open>if __name__ == '__main__': f()\<close>: 0 when \<open>f\<close> returns, whatever it
  returns, and 1 when an exception leaves it. \<open>exit(main())\<close> hands on what \<open>main\<close> returns.
\<close>

definition script_status :: "'a io \<Rightarrow> world \<Rightarrow> nat" where
  "script_status f w = (case fst (f w) of Inl e \<Rightarrow> 1 | Inr x \<Rightarrow> 0)"

definition exit_status :: "nat io \<Rightarrow> world \<Rightarrow> nat" where
  "exit_status f w = (case fst (f w) of Inl e \<Rightarrow> 1 | Inr code \<Rightarrow> code)"

text \<open>A process starts with nothing printed and nothing read.\<close>

definition start :: "bool \<Rightarrow> arrival list \<Rightarrow> world" where
  "start up arrs =
     \<lparr>trace = [], pending = [], arrivals = arrs, reachable = up,
      dirs = Map.empty, smtp_fail = None\<rparr>"

text \<open>Readings of a trace.\<close>

fun sent_of :: "event list \<Rightarrow> string list" where
  "sent_of [] = []"
| "sent_of (SendAll s # evs) = s # sent_of evs"
| "sent_of (ev # evs) = sent_of evs"

fun printed_of :: "event list \<Rightarrow> string list" where
  "printed_of [] = []"
| "printed_of (Print s # evs) = s # printed_of evs"
| "printed_of (ev # evs) = printed_of evs"

fun recvs_of :: "event list \<Rightarrow> nat list" where
  "recvs_of [] = []"
| "recvs_of (Recv n # evs) = n # recvs_of evs"
| "recvs_of (ev # evs) = recvs_of evs"

text \<open>The socket is left open: it was connected and never closed.\<close>

definition socket_open :: "event list \<Rightarrow> bool" where
  "socket_open evs = ((\<exists>h p. Connect h p \<in> set evs) \<and> Close \<notin> set evs)"

section \<open>The raw-socket scripts\<close>

definition DQ :: string where
  "DQ = [CHR 0x22]"

subsection \<open>test-imap-full.py\<close>

definition send_command_full :: "string \<Rightarrow> string io" where
  "send_command_full command =
     io_then (print_line (arrow_right @ '' '' @ command))
    (io_then (sock_sendall (command @ CRLF))
    (io_then (time_sleep 300)
    (io_bind (io_bind (sock_recv 8192) decode) (\<lambda>response.
     io_then (print_line (arrow_left @ '' '' @ response))
    (io_return response)))))"

text \<open>
  \<open>test_complete_flow\<close> is one function in the source. It is written here in four
  parts, each the rest of the function after one of its three checks: lines 52 to 64,
  lines 43 to 64, lines 34 to 64, and the whole. Each \<open>return\<close> of the source ends the
  function where it stands.
\<close>

definition flow_after_fetch :: "unit io" where
  "flow_after_fetch =
     io_then (print_line (check_mark @ '' FETCH successful!'' @ [LF]))
    (io_then (print_line (''4. LIST '' @ DQ @ DQ @ '' '' @ DQ @ ''*'' @ DQ))
    (io_bind (send_command_full (''A004 LIST '' @ DQ @ DQ @ '' '' @ DQ @ ''*'' @ DQ)) (\<lambda>response.
     io_then (print_line (check_mark @ '' LIST successful!'' @ [LF]))
    (io_then (print_line ''5. LOGOUT'')
    (io_bind (send_command_full ''A005 LOGOUT'') (\<lambda>_.
     io_then sock_close
    (print_line (LF # ''=== All tests passed! '' @ party @ '' ===''))))))))"

definition flow_after_select :: "unit io" where
  "flow_after_select =
     io_then (print_line (check_mark @ '' SELECT successful!'' @ [LF]))
    (io_then (print_line ''3. FETCH 1:* (BODY[])'')
    (io_bind (send_command_full ''A003 FETCH 1:* BODY[]'') (\<lambda>response.
     if \<not> py_in ''OK'' response then print_line (cross_mark @ '' FETCH failed!'')
     else flow_after_fetch)))"

definition flow_after_login :: "unit io" where
  "flow_after_login =
     io_then (print_line (check_mark @ '' LOGIN successful!'' @ [LF]))
    (io_then (print_line ''2. SELECT INBOX'')
    (io_bind (send_command_full ''A002 SELECT INBOX'') (\<lambda>response.
     if \<not> py_in ''OK'' response then print_line (cross_mark @ '' SELECT failed!'')
     else flow_after_select)))"

definition test_complete_flow :: "unit io" where
  "test_complete_flow =
     io_then (print_line (''=== Testing Complete IMAP Flow ==='' @ [LF]))
    (io_then (sock_connect ''localhost'' 1993)
    (io_bind (io_bind (sock_recv 4096) decode) (\<lambda>greeting.
     io_then (print_line (arrow_left @ '' '' @ greeting))
    (io_then (print_line (LF # ''1. LOGIN with valid credentials''))
    (io_bind (send_command_full ''A001 LOGIN test@example.com password123'') (\<lambda>response.
     if \<not> py_in ''OK'' response then print_line (cross_mark @ '' LOGIN failed!'')
     else flow_after_login))))))"

subsection \<open>test-imap-e2e.py\<close>

definition send_command_e2e :: "string \<Rightarrow> string io" where
  "send_command_e2e command =
     io_then (print_line (arrow_right @ '' '' @ command))
    (io_then (sock_sendall (command @ CRLF))
    (io_then (time_sleep 300)
    (io_bind (io_bind (sock_recv 8192) decode) (\<lambda>response.
     io_then (print_line (arrow_left @ '' '' @ response))
    (io_return response)))))"

text \<open>
  \<open>int(match.group(1))\<close>: since Python 3.11 (and the security releases of 3.7 to 3.10) a
  run of more than 4300 digits raises \<open>ValueError\<close>.
\<close>

definition int_of_group :: "nat list \<Rightarrow> nat io" where
  "int_of_group ds = (if 4300 < length ds then io_raise ValueError else io_return (py_int ds))"

text \<open>
  Lines 39 to 55 of \<open>test_imap_read\<close>, the body of \<open>if match:\<close>, with \<open>ds\<close> for
  \<open>match.group(1)\<close>.
\<close>

definition fetch_latest :: "nat list \<Rightarrow> unit io" where
  "fetch_latest ds =
     io_bind (int_of_group ds) (\<lambda>count.
     io_then (print_line (LF # check_mark @ '' Found '' @ py_str (int count)
                            @ '' emails in INBOX''))
    (io_then (print_line (LF # ''3. Fetching email #'' @ py_str (int count)
                            @ '' (latest)...''))
    (io_bind (send_command_e2e (''A003 FETCH '' @ py_str (int count) @ '' BODY[]''))
       (\<lambda>response.
     if py_in ''E2E Test Email'' response then
       io_then (print_line (LF # party
                  @ '' SUCCESS! The E2E test email is readable via IMAP!''))
      (io_then (print_line (LF # ''Email content preview:''))
      (io_then (print_line (replicate 50 CHR ''=''))
      (if py_in ''full stack is working'' response
       then print_line (check_mark @ '' E2E test message confirmed!'')
       else io_return ())))
     else print_line (LF # warning_sign @ ''  Could not find E2E test email'')))))"

definition test_imap_read :: "unit io" where
  "test_imap_read =
     io_then (print_line (''=== Testing IMAP Email Reading ==='' @ [LF]))
    (io_then (sock_connect ''localhost'' 1993)
    (io_bind (io_bind (sock_recv 4096) decode) (\<lambda>greeting.
     io_then (print_line (arrow_left @ '' '' @ greeting))
    (io_then (print_line (LF # ''1. Logging in...''))
    (io_bind (send_command_e2e ''A001 LOGIN test@example.com password123'') (\<lambda>_.
     io_then (print_line (LF # ''2. Selecting INBOX...''))
    (io_bind (send_command_e2e ''A002 SELECT INBOX'') (\<lambda>response.
     io_then
       (case re_search_exists response of
          None \<Rightarrow> io_return ()
        | Some ds \<Rightarrow> fetch_latest ds)
    (io_then (print_line (LF # ''4. Logging out...''))
    (io_bind (send_command_e2e ''A004 LOGOUT'') (\<lambda>_.
     io_then sock_close
    (print_line (LF # ''=== IMAP Test Complete ==='')))))))))))))"

subsection \<open>test-imap-all.py\<close>

definition send_command_all :: "string \<Rightarrow> string io" where
  "send_command_all command =
     io_then (print_line (arrow_right @ '' '' @ command))
    (io_then (sock_sendall (command @ CRLF))
    (io_then (time_sleep 300)
    (io_bind (sock_recv 16384) decode)))"

text \<open>Line 45, \<open>email_count = response.count("* ") - 1\<close>.\<close>

definition email_count :: "string \<Rightarrow> int" where
  "email_count response = int (py_count response ''* '') - 1"

definition test_imap_all :: "unit io" where
  "test_imap_all =
     io_then (print_line (''=== Fetching All Emails via IMAP ==='' @ [LF]))
    (io_then (sock_connect ''localhost'' 1993)
    (io_bind (io_bind (sock_recv 4096) decode) (\<lambda>greeting.
     io_then (print_line (arrow_left @ '' '' @ greeting))
    (io_then (print_line ''1. Logging in...'')
    (io_bind (send_command_all ''A001 LOGIN test@example.com password123'') (\<lambda>_.
     io_then (print_line ''2. Selecting INBOX...'')
    (io_bind (send_command_all ''A002 SELECT INBOX'') (\<lambda>response.
     io_then (print_line (arrow_left @ '' '' @ response))
    (io_then (print_line (LF # ''3. Fetching ALL emails (1:*)...''))
    (io_bind (send_command_all ''A003 FETCH 1:* BODY[]'') (\<lambda>response.
     io_then
       (if py_in ''E2E Test Email'' response \<and> py_in ''full stack is working'' response
        then
          io_then (print_line (LF # party
                     @ '' SUCCESS! The E2E test email is readable via IMAP!''))
         (io_then (print_line (LF # check_mark @ '' SMTP '' @ arrow_right @ '' Maildir ''
                     @ arrow_right @ '' IMAP chain works perfectly!''))
         (print_line (LF # mailbox_sign @ '' Total emails fetched: ''
                     @ py_str (email_count response))))
        else
          io_then (print_line (LF # warning_sign @ ''  E2E test email not found in response''))
         (io_then (print_line (LF # ''Response preview:''))
         (print_line (take_cp 500 response))))
    (io_then (print_line (LF # ''4. Logging out...''))
    (io_bind (send_command_all ''A004 LOGOUT'') (\<lambda>_.
     io_then sock_close
    (print_line (LF # ''=== Test Complete ===''))))))))))))))))"

subsection \<open>test-imap.py\<close>

definition send_command_imap :: "string \<Rightarrow> string io" where
  "send_command_imap command =
     io_then (print_line (arrow_right @ '' '' @ command))
    (io_then (sock_sendall (command @ CRLF))
    (io_then (time_sleep 200)
    (io_bind (io_bind (sock_recv 4096) decode) (\<lambda>response.
     io_then (print_line (arrow_left @ '' '' @ response))
    (io_return response)))))"

definition test_imap :: "unit io" where
  "test_imap =
     io_then (print_line (''=== Testing IMAP Server ==='' @ [LF]))
    (io_then (sock_connect ''localhost'' 1993)
    (io_bind (io_bind (sock_recv 4096) decode) (\<lambda>greeting.
     io_then (print_line (arrow_left @ '' '' @ greeting))
    (io_then (print_line (LF # ''1. Testing CAPABILITY''))
    (io_bind (send_command_imap ''A001 CAPABILITY'') (\<lambda>_.
     io_then (print_line (LF # ''2. Testing NOOP''))
    (io_bind (send_command_imap ''A002 NOOP'') (\<lambda>_.
     io_then (print_line (LF # ''3. Testing LOGIN (should fail)''))
    (io_bind (send_command_imap ''A003 LOGIN test@example.com wrongpass'') (\<lambda>_.
     io_then (print_line (LF # ''4. Testing LOGOUT''))
    (io_bind (send_command_imap ''A004 LOGOUT'') (\<lambda>_.
     io_then sock_close
    (print_line (LF # ''=== Tests completed ===''))))))))))))))"

subsection \<open>send-smtp-raw.py\<close>

definition send_command_smtp :: "string \<Rightarrow> string io" where
  "send_command_smtp command =
     io_then (print_line (arrow_right @ '' '' @ command))
    (io_then (sock_sendall (command @ CRLF))
    (io_then (time_sleep 200)
    (io_bind (io_bind (sock_recv 4096) decode) (\<lambda>response.
     io_then (print_line (arrow_left @ '' '' @ py_strip response))
    (io_return response)))))"

definition unlines :: "string list \<Rightarrow> string" where
  "unlines ls = concat (map (\<lambda>l. l @ [LF]) ls)"

text \<open>
  The message of lines 42 to 64. \<open>timestamp\<close> and \<open>date\<close> are the two readings of
  \<open>datetime.now()\<close>, formatted by \<open>strftime\<close>.
\<close>

definition email_content :: "string \<Rightarrow> string \<Rightarrow> string" where
  "email_content timestamp date = unlines
     [''From: sender@example.com'',
      ''To: test@example.com'',
      ''Subject: E2E Test Email - '' @ timestamp,
      ''Date: '' @ date,
      [],
      ''Hello!'',
      [],
      ''This is an end-to-end test email sent via raw SMTP.'',
      [],
      ''If you can read this in the web-ui via the AI assistant, it means:'',
      check_mark @ '' SMTP reception works'',
      check_mark @ '' Maildir storage works'',
      check_mark @ '' IMAP reading works'',
      check_mark @ '' MCP integration works'',
      check_mark @ '' AI runtime works'',
      check_mark @ '' Web-UI works'',
      [],
      ''Congratulations! The full stack is working! '' @ party,
      [],
      ''Best regards,'',
      ''The GK Mail Test Suite'',
      ''.'']"

definition send_email :: "string \<Rightarrow> string \<Rightarrow> unit io" where
  "send_email timestamp date =
     io_then (print_line (''=== Sending Test Email via SMTP ==='' @ [LF]))
    (io_then (sock_connect ''localhost'' 2525)
    (io_bind (io_bind (sock_recv 4096) decode) (\<lambda>greeting.
     io_then (print_line (arrow_left @ '' '' @ py_strip greeting))
    (io_bind (send_command_smtp ''EHLO test-client'') (\<lambda>_.
     io_bind (send_command_smtp ''MAIL FROM:<sender@example.com>'') (\<lambda>_.
     io_bind (send_command_smtp ''RCPT TO:<test@example.com>'') (\<lambda>_.
     io_bind (send_command_smtp ''DATA'') (\<lambda>_.
     io_then (print_line (arrow_right @ '' [Email content]''))
    (io_then (sock_sendall (email_content timestamp date))
    (io_then (time_sleep 300)
    (io_bind (io_bind (sock_recv 4096) decode) (\<lambda>response.
     io_then (print_line (arrow_left @ '' '' @ py_strip response))
    (io_bind (send_command_smtp ''QUIT'') (\<lambda>_.
     io_then sock_close
    (print_line (LF # check_mark @ '' Email sent successfully!''))))))))))))))))"

section \<open>test\_spf\_dkim.py\<close>

text \<open>
  \<open>smtplib\<close> is the standard library, not this repository: a session is described by
  what the script sees of it. \<open>smtp_fail w = Some (k, msg)\<close> says that the \<open>k\<close>-th call
  raises an exception whose text is \<open>msg\<close> (0 the constructor, which connects; 1 \<open>ehlo\<close>,
  2 \<open>mail\<close>, 3 \<open>rcpt\<close>, 4 \<open>data\<close>, 5 the \<open>QUIT\<close> that leaving the \<open>with\<close> block sends);
  \<open>None\<close> that none does. \<open>mail\<close> and \<open>rcpt\<close> return the server's reply code and do not
  raise on a refusal.
\<close>

definition smtp_call :: "nat \<Rightarrow> string \<Rightarrow> unit io" where
  "smtp_call k name =
     (\<lambda>w. case smtp_fail w of
             Some (j, msg) \<Rightarrow> if j = k then (Inl (SMTPException msg), w) else emit (Smtp name) w
           | None \<Rightarrow> emit (Smtp name) w)"

text \<open>
  \<open>with smtplib.SMTP(host, port) as server: body\<close>. When the constructor raises there
  is no session. Otherwise \<open>__exit__\<close> runs however the body ends: it sends \<open>QUIT\<close> and, in
  its \<open>finally\<close>, closes the connection; an exception of the body is raised again after.
\<close>

definition with_smtp :: "unit io \<Rightarrow> unit io" where
  "with_smtp body =
     io_then (smtp_call 0 ''SMTP'')
       (\<lambda>w. case body w of
               (Inl e, w1) \<Rightarrow>
                 (case smtp_call 5 ''quit'' w1 of
                    (Inl e', w2) \<Rightarrow> (Inl e', snd (emit SmtpClose w2))
                  | (Inr u, w2) \<Rightarrow> (Inl e, snd (emit SmtpClose w2)))
             | (Inr u, w1) \<Rightarrow>
                 (case smtp_call 5 ''quit'' w1 of
                    (r, w2) \<Rightarrow> (r, snd (emit SmtpClose w2))))"

definition exn_text :: "py_exn \<Rightarrow> string" where
  "exn_text e = (case e of SMTPException msg \<Rightarrow> msg | _ \<Rightarrow> [])"

text \<open>\<open>traceback.print_exc()\<close> writes to standard error, which the trace does not hold.\<close>

definition send_test_email :: "bool io" where
  "send_test_email =
     io_then (print_line (envelope_sign @ '' Sending test email...''))
    (io_catch
       (io_then
          (with_smtp
             (io_seq [smtp_call 1 ''ehlo'', smtp_call 2 ''mail'', smtp_call 3 ''rcpt'',
                      smtp_call 4 ''data'']))
       (io_then (print_line (check_mark @ '' Email sent successfully!''))
       (io_return True)))
       (\<lambda>e. io_then (print_line (cross_mark @ '' Failed to send email: '' @ exn_text e))
            (io_return False)))"

text \<open>
  The mail directory: \<open>dirs w p\<close> is \<open>None\<close> when the path \<open>p\<close> does not exist, and
  otherwise the files of the directory in the order in which \<open>glob\<close> lists them (a path
  that exists and is no directory lists nothing). \<open>glob\<close>'s \<open>*\<close> leaves out names that
  start with a dot, and \<open>os.path.basename\<close> of a listed path is the name of the file.
  \<open>ctime\<close> is what \<open>os.path.getctime(path)\<close> gives: the time (times are only compared,
  and are taken as integers), or the \<open>OSError\<close> it raises when the entry cannot be examined (\<open>glob\<close> also lists a symbolic link whose target is
  missing). \<open>file_text\<close> is what \<open>open(path, 'r').read()\<close> gives: the text, or the
  exception it raises. The directory does not change while the script runs.
\<close>

definition path_exists :: "string \<Rightarrow> bool io" where
  "path_exists p = (\<lambda>w. (Inr (dirs w p \<noteq> None), w))"

definition glob_star :: "string \<Rightarrow> mailfile list io" where
  "glob_star d =
     (\<lambda>w. (Inr (case dirs w d of
                   None \<Rightarrow> []
                 | Some fs \<Rightarrow> filter (\<lambda>f. \<not> prefix ''.'' (fname f)) fs), w))"

definition read_file :: "mailfile \<Rightarrow> string io" where
  "read_file f = (\<lambda>w. (file_text f, w))"

text \<open>
  \<open>max(emails, key=os.path.getctime)\<close>: the key of every entry is computed, in the order
  of the list, and the first exception ends the search; the result is the first of the
  entries with the greatest key. \<open>max_from t best xs\<close> goes on from \<open>best\<close>, whose key is
  \<open>t\<close>. On the empty list \<open>max\<close> raises \<open>ValueError\<close>.
\<close>

fun max_from :: "int \<Rightarrow> mailfile \<Rightarrow> mailfile list \<Rightarrow> py_exn + mailfile" where
  "max_from t best [] = Inr best"
| "max_from t best (x # xs) =
     (case ctime x of
        Inl e \<Rightarrow> Inl e
      | Inr u \<Rightarrow> if t < u then max_from u x xs else max_from t best xs)"

fun max_ctime :: "mailfile list \<Rightarrow> py_exn + mailfile" where
  "max_ctime [] = Inl ValueError"
| "max_ctime (x # xs) = (case ctime x of Inl e \<Rightarrow> Inl e | Inr t \<Rightarrow> max_from t x xs)"

text \<open>
  Lines 62 to 78 of \<open>check_authentication_header\<close>: the latest file of the mailbox, or
  \<open>None\<close> where the function prints its message and returns \<open>False\<close>. An exception of
  \<open>os.path.getctime\<close> is not caught.
\<close>

definition latest_email :: "mailfile option io" where
  "latest_email =
     io_bind (path_exists ''data/maildir/admin@delfour.co/new'') (\<lambda>there.
     let maildir = (if \<not> there then ''mail-rs/data/maildir/admin@delfour.co/new''
                    else ''data/maildir/admin@delfour.co/new'') in
     io_bind (path_exists maildir) (\<lambda>there.
     if \<not> there then
       io_then (print_line (cross_mark @ '' Maildir not found: '' @ maildir))
      (io_return None)
     else
     io_bind (glob_star maildir) (\<lambda>emails.
     case emails of
       [] \<Rightarrow> io_then (print_line (cross_mark @ '' No emails found in mailbox''))
             (io_return None)
     | e # es \<Rightarrow>
         (case max_ctime emails of
            Inl x \<Rightarrow> io_raise x
          | Inr latest \<Rightarrow> io_return (Some latest)))))"

definition shown_line :: "string \<Rightarrow> bool" where
  "shown_line line =
     (py_in ''Authentication-Results:'' line
      \<or> (prefix '' '' line \<and> py_in ''spf='' (py_lower line))
      \<or> (prefix '' '' line \<and> py_in ''dkim='' (py_lower line)))"

text \<open>Lines 85 to 113 of \<open>check_authentication_header\<close>, on the text that was read.\<close>

definition report_header :: "string \<Rightarrow> bool io" where
  "report_header content =
     (let has_auth_header = py_in ''Authentication-Results:'' content in
      if has_auth_header then
        io_then (print_line (check_mark @ '' Authentication-Results header found!''))
       (io_then (io_seq (map (\<lambda>line. print_line (''   '' @ py_strip line))
                           (filter shown_line (split_on LF content))))
       (let has_spf = py_in ''spf='' (py_lower content);
            has_dkim = py_in ''dkim='' (py_lower content) in
        io_then (print_line (LF # chart_sign @ '' Validation Results:''))
       (io_then (print_line (''   SPF validated: ''
                   @ (if has_spf then check_mark else cross_mark)))
       (io_then (print_line (''   DKIM validated: ''
                   @ (if has_dkim then check_mark else cross_mark)))
       (io_return True)))))
      else
        io_then (print_line (cross_mark @ '' Authentication-Results header NOT found''))
       (io_then (print_line (LF # page_sign @ '' Email headers (first 30 lines):''))
       (io_then (io_seq (map (\<lambda>line. print_line (''   '' @ line))
                           (take 30 (split_on LF content))))
       (io_return False))))"

definition check_authentication_header :: "bool io" where
  "check_authentication_header =
     io_then (print_line (LF # magnifier_sign @ '' Checking for Authentication-Results header...''))
    (io_then (time_sleep 1000)
    (io_bind latest_email (\<lambda>latest.
     case latest of
       None \<Rightarrow> io_return False
     | Some f \<Rightarrow>
         io_then (print_line (incoming_sign @ '' Reading email: '' @ fname f))
        (io_bind (read_file f) report_header))))"

definition rule60 :: string where
  "rule60 = replicate 60 CHR ''=''"

definition main :: "nat io" where
  "main =
     io_then (print_line rule60)
    (io_then (print_line ''SPF/DKIM Authentication Test'')
    (io_then (print_line rule60)
    (io_bind send_test_email (\<lambda>sent.
     if sent then
       io_bind check_authentication_header (\<lambda>found.
       if found then
         io_then (print_line (LF # rule60))
        (io_then (print_line (check_mark @ '' SPF/DKIM INTEGRATION TEST PASSED!''))
        (io_then (print_line rule60)
        (io_return 0)))
       else
         io_then (print_line (LF # rule60))
        (io_then (print_line (cross_mark @ '' SPF/DKIM INTEGRATION TEST FAILED''))
        (io_then (print_line ''   Authentication header not found in email'')
        (io_then (print_line rule60)
        (io_return 1)))))
     else
       io_then (print_line (LF # rule60))
      (io_then (print_line (cross_mark @ '' SPF/DKIM INTEGRATION TEST FAILED''))
      (io_then (print_line ''   Could not send test email'')
      (io_then (print_line rule60)
      (io_return 1))))))))"

text \<open>The world in which \<open>test_spf_dkim.py\<close> starts.\<close>

definition start_spf :: "(nat \<times> string) option \<Rightarrow> (string \<rightharpoonup> mailfile list) \<Rightarrow> world" where
  "start_spf fail ds =
     \<lparr>trace = [], pending = [], arrivals = [], reachable = True,
      dirs = ds, smtp_fail = fail\<rparr>"

section \<open>Notions used in the statements\<close>

subsection \<open>The message count of test-imap-all.py\<close>

text \<open>
  \<open>approximateMessageCount\<close> as the specification words it: the number of lines that
  begin with \<open>"* "\<close>, minus one. A line ends at a line feed.
\<close>

definition lines_beginning_star :: "string \<Rightarrow> nat" where
  "lines_beginning_star s = length (filter (prefix ''* '') (split_on LF s))"

definition approximateMessageCount_spec :: "string \<Rightarrow> int" where
  "approximateMessageCount_spec s = int (lines_beginning_star s) - 1"

text \<open>The same count without the first line.\<close>

definition later_lines :: "string \<Rightarrow> nat" where
  "later_lines s = length (filter (prefix ''* '') (tl (split_on LF s)))"

text \<open>\<open>"* "\<close> occurs at position \<open>i\<close> of a text.\<close>

definition star_at :: "string \<Rightarrow> nat \<Rightarrow> bool" where
  "star_at s i = prefix ''* '' (drop i s)"

text \<open>Every occurrence of \<open>"* "\<close> stands at the start of a line.\<close>

definition at_line_starts :: "string \<Rightarrow> bool" where
  "at_line_starts s =
     (\<forall>i \<in> set [0..<length s]. star_at s i \<longrightarrow> i = 0 \<or> s ! (i - 1) = LF)"

text \<open>Every occurrence of \<open>"* "\<close> stands right after a line feed.\<close>

definition after_line_feeds :: "string \<Rightarrow> bool" where
  "after_line_feeds s = (\<forall>i < length s. star_at s i \<longrightarrow> i \<noteq> 0 \<and> s ! (i - 1) = LF)"

text \<open>
  A \<open>FETCH\<close> response of one message whose body holds \<open>"* "\<close>, and a response of two
  untagged lines.
\<close>

definition fetch_reply :: string where
  "fetch_reply =
     ''* 1 FETCH (BODY[] {5}'' @ CRLF @ ''a * b)'' @ CRLF @ ''A003 OK FETCH completed'' @ CRLF"

definition two_untagged :: string where
  "two_untagged = ''* 1 EXISTS'' @ [LF] @ ''* 2 RECENT'' @ [LF]"

subsection \<open>One read per command\<close>

text \<open>The bytes that have arrived by the time of the next read.\<close>

definition available :: "world \<Rightarrow> string" where
  "available w = pending w @ (case arrivals w of Data bs # rest \<Rightarrow> bs | _ \<Rightarrow> [])"

text \<open>
  Running \<open>m\<close>, which sends \<open>cmd\<close>, in the world \<open>w\<close> adds to the trace the echo of the
  command, one \<open>sendall\<close> of the command and CRLF, one sleep of \<open>delay\<close> milliseconds and
  one \<open>recv\<close> of \<open>n\<close> bytes, in this order, and then \<open>echo r\<close> when it returns \<open>r\<close>. What it
  returns is the first \<open>n\<close> of the bytes that have arrived; the others stay in the
  socket.
\<close>

definition one_read :: "string io \<Rightarrow> string \<Rightarrow> nat \<Rightarrow> nat \<Rightarrow> (string \<Rightarrow> event list) \<Rightarrow> world \<Rightarrow> bool"
  where
  "one_read m cmd delay n echo w =
     (case m w of
        (Inr r, w') \<Rightarrow>
          r = take n (available w) \<and> length r \<le> n \<and> pending w' = drop n (available w) \<and>
          trace w' = trace w @ [Print (arrow_right @ '' '' @ cmd), SendAll (cmd @ CRLF),
                                Sleep delay, Recv n] @ echo r
      | (Inl e, w') \<Rightarrow>
          trace w' = trace w @ [Print (arrow_right @ '' '' @ cmd), SendAll (cmd @ CRLF),
                                Sleep delay, Recv n])"

text \<open>A response of 4097 bytes.\<close>

definition long_reply :: string where
  "long_reply = replicate 4096 CHR ''a'' @ ''b''"

subsection \<open>What a run adds to the trace\<close>

text \<open>A reading of traces that reads a trace event by event.\<close>

definition additive :: "(event list \<Rightarrow> 'b list) \<Rightarrow> bool" where
  "additive obs = (obs [] = [] \<and> (\<forall>a b. obs (a @ b) = obs a @ obs b))"

text \<open>A reading that sees nothing of the socket but what is sent.\<close>

definition sends_only :: "(event list \<Rightarrow> 'b list) \<Rightarrow> bool" where
  "sends_only obs =
     (additive obs \<and> (\<forall>s. obs [Print s] = []) \<and> (\<forall>h p. obs [Connect h p] = []) \<and>
      (\<forall>n. obs [Sleep n] = []) \<and> (\<forall>n. obs [Recv n] = []) \<and> obs [Close] = [])"

text \<open>
  \<open>emits obs m S\<close>: in every world \<open>m\<close> only adds events to the trace, and what \<open>obs\<close>
  reads of them is one of the lists of \<open>S\<close> when \<open>m\<close> returns, and the beginning of one
  when an exception ends \<open>m\<close>.
\<close>

definition emits :: "(event list \<Rightarrow> 'b list) \<Rightarrow> 'a io \<Rightarrow> 'b list list \<Rightarrow> bool" where
  "emits obs m S =
     (\<forall>w. \<exists>evs. trace (snd (m w)) = trace w @ evs \<and>
        (\<exists>l \<in> set S. case fst (m w) of Inr x \<Rightarrow> obs evs = l | Inl e \<Rightarrow> prefix (obs evs) l))"

definition seqs :: "'b list list \<Rightarrow> 'b list list \<Rightarrow> 'b list list" where
  "seqs S T = concat (map (\<lambda>a. map (\<lambda>b. a @ b) T) S)"

subsection \<open>Tags\<close>

text \<open>The tag of a command line is its first word.\<close>

definition tag_of :: "string \<Rightarrow> string" where
  "tag_of cmd = takeWhile (\<lambda>c. c \<noteq> CHR '' '') cmd"

definition tags_sent :: "event list \<Rightarrow> string list" where
  "tags_sent evs = map tag_of (sent_of evs)"

text \<open>The format \<open>A%03d\<close>, and the number of a tag of this format.\<close>

definition tag_digit :: "char \<Rightarrow> bool" where
  "tag_digit c = (c \<in> set ''0123456789'')"

definition tag_digit_val :: "char \<Rightarrow> nat" where
  "tag_digit_val c = (case map_of (zip ''0123456789'' [0, 1, 2, 3, 4, 5, 6, 7, 8, 9]) c of
                        Some v \<Rightarrow> v
                      | None \<Rightarrow> 0)"

definition well_formed_tag :: "string \<Rightarrow> bool" where
  "well_formed_tag t =
     (case t of
        c # ds \<Rightarrow> c = CHR ''A'' \<and> length ds = 3 \<and> list_all tag_digit ds
      | [] \<Rightarrow> False)"

definition tag_number :: "string \<Rightarrow> nat" where
  "tag_number t = foldl (\<lambda>a c. 10 * a + tag_digit_val c) 0 (tl t)"

text \<open>
  The tags of one session: each of the format, each greater than the one before it as a
  string and as a number, the first one \<open>A001\<close>.
\<close>

definition tags_increasing :: "string list \<Rightarrow> bool" where
  "tags_increasing ts =
     (list_all well_formed_tag ts \<and> sorted_wrt (<) ts \<and> sorted_wrt (<) (map tag_number ts)
      \<and> prefix (take 1 ts) [''A001''])"

subsection \<open>Runs in which no read fails\<close>

definition ascii :: "string \<Rightarrow> bool" where
  "ascii s = list_all (\<lambda>c. (of_char c :: nat) < 128) s"

text \<open>
  A world in which the server can be reached, the connection is never reset and all the
  bytes that arrive are ASCII, so that every read decodes.
\<close>

definition clean :: "world \<Rightarrow> bool" where
  "clean w =
     (reachable w \<and> ascii (pending w) \<and>
      list_all (\<lambda>a. case a of Data bs \<Rightarrow> ascii bs | Reset \<Rightarrow> False) (arrivals w))"

text \<open>In a clean world \<open>m\<close> returns, and leaves a clean world.\<close>

definition returns :: "'a io \<Rightarrow> bool" where
  "returns m = (\<forall>w. clean w \<longrightarrow> clean (snd (m w)) \<and> (\<exists>x. fst (m w) = Inr x))"

text \<open>The events that running \<open>m\<close> in \<open>w\<close> adds to the trace.\<close>

definition appended :: "'a io \<Rightarrow> world \<Rightarrow> event list" where
  "appended m w = drop (length (trace w)) (trace (snd (m w)))"

subsection \<open>The session of test-imap.py\<close>

definition imap_commands :: "string list" where
  "imap_commands =
     [''A001 CAPABILITY'' @ CRLF, ''A002 NOOP'' @ CRLF,
      ''A003 LOGIN test@example.com wrongpass'' @ CRLF, ''A004 LOGOUT'' @ CRLF]"

text \<open>A server that accepts the wrong password.\<close>

definition login_accepted :: "arrival list" where
  "login_accepted =
     [Data (''* OK IMAP4rev1 ready'' @ CRLF),
      Data (''* CAPABILITY IMAP4rev1'' @ CRLF @ ''A001 OK CAPABILITY completed'' @ CRLF),
      Data (''A002 OK NOOP completed'' @ CRLF),
      Data (''A003 OK LOGIN completed'' @ CRLF),
      Data (''* BYE'' @ CRLF @ ''A004 OK LOGOUT completed'' @ CRLF)]"

subsection \<open>The mailbox of test\_spf\_dkim.py\<close>

definition primary_dir :: string where
  "primary_dir = ''data/maildir/admin@delfour.co/new''"

definition fallback_dir :: string where
  "fallback_dir = ''mail-rs/data/maildir/admin@delfour.co/new''"

text \<open>
  The directory that is searched: the one under the primary root when it exists, the one
  under the alternate root otherwise; and the files that \<open>glob\<close> lists there.
\<close>

definition maildir_of :: "(string \<rightharpoonup> mailfile list) \<Rightarrow> string" where
  "maildir_of ds = (if ds primary_dir \<noteq> None then primary_dir else fallback_dir)"

definition listing :: "(string \<rightharpoonup> mailfile list) \<Rightarrow> mailfile list" where
  "listing ds =
     (case ds (maildir_of ds) of
        None \<Rightarrow> []
      | Some fs \<Rightarrow> filter (\<lambda>f. \<not> prefix ''.'' (fname f)) fs)"

text \<open>
  The exception of the first listed file whose creation time cannot be read, if there
  is one.
\<close>

definition unreadable_time :: "mailfile list \<Rightarrow> py_exn option" where
  "unreadable_time fs =
     (case List.map_filter (\<lambda>f. case ctime f of Inl e \<Rightarrow> Some e | Inr t \<Rightarrow> None) fs of
        [] \<Rightarrow> None
      | e # _ \<Rightarrow> Some e)"

text \<open>The send step fails: one of the six \<open>smtplib\<close> calls raises.\<close>

definition smtp_raises :: "world \<Rightarrow> bool" where
  "smtp_raises w = (case smtp_fail w of None \<Rightarrow> False | Some (k, msg) \<Rightarrow> k \<le> 5)"

text \<open>
  Mailboxes for the examples: three files of which the second and the third are the
  latest; a message with the header and no result token; an existing, empty primary
  directory beside a filled alternate one.
\<close>

definition plain_file :: "string \<Rightarrow> int \<Rightarrow> string \<Rightarrow> mailfile" where
  "plain_file n t c = \<lparr>fname = n, ctime = Inr t, file_text = Inr c\<rparr>"

definition three_files :: "string \<rightharpoonup> mailfile list" where
  "three_files =
     [fallback_dir \<mapsto> [plain_file ''a'' 1 ''x'', plain_file ''b'' 5 ''y'', plain_file ''c'' 5 ''z'']]"

definition bare_header :: string where
  "bare_header =
     ''Authentication-Results: mx.delfour.co; none'' @ [LF] @ ''Subject: SPF/DKIM Test Email''
       @ [LF] @ [LF] @ ''This is a test email.'' @ [LF]"

definition bare_mailbox :: "string \<rightharpoonup> mailfile list" where
  "bare_mailbox = [primary_dir \<mapsto> [plain_file ''1764763200.M1'' 1764763200 bare_header]]"

text \<open>
  A mailbox that lists a symbolic link whose target is missing, beside a delivered
  message that has the header.
\<close>

definition dangling_link :: mailfile where
  "dangling_link = \<lparr>fname = ''link'', ctime = Inl OSError, file_text = Inl OSError\<rparr>"

definition linked_mailbox :: "string \<rightharpoonup> mailfile list" where
  "linked_mailbox =
     [primary_dir \<mapsto> [dangling_link, plain_file ''1764763200.M1'' 1764763200 bare_header]]"

text \<open>A server that refuses the login of test-imap-full.py, and one that resets the connection.\<close>

definition login_refused :: "arrival list" where
  "login_refused =
     [Data (''* OK IMAP4rev1 ready'' @ CRLF), Data (''A001 NO LOGIN failed'' @ CRLF)]"

definition login_reset :: "arrival list" where
  "login_reset = [Data (''* OK IMAP4rev1 ready'' @ CRLF), Reset]"

subsection \<open>The steps of test-imap-full.py and test-imap-e2e.py\<close>

text \<open>Running \<open>m\<close> only adds events to the trace.\<close>

definition grows :: "'a io \<Rightarrow> bool" where
  "grows m = (\<forall>w. prefix (trace w) (trace (snd (m w))))"

text \<open>
  \<open>statusOk\<close> as the specification words it: \<open>OK\<close> stands on the completion line of the
  command's tag, right after the tag.
\<close>

definition statusOk_spec :: "string \<Rightarrow> string \<Rightarrow> bool" where
  "statusOk_spec tag response = list_ex (prefix (tag @ '' OK'')) (split_on LF response)"

text \<open>
  A server that refuses the \<open>FETCH\<close> after sending a message whose subject is \<open>OK\<close>.
\<close>

definition fetch_failed :: string where
  "fetch_failed =
     ''* 1 FETCH (BODY[] {13}'' @ CRLF @ ''Subject: OK'' @ CRLF @ '')'' @ CRLF
       @ ''A003 NO FETCH failed'' @ CRLF"

definition ok_in_body :: "arrival list" where
  "ok_in_body =
     [Data (''* OK IMAP4rev1 ready'' @ CRLF),
      Data (''A001 OK LOGIN completed'' @ CRLF),
      Data (''* 1 EXISTS'' @ CRLF @ ''A002 OK SELECT completed'' @ CRLF),
      Data fetch_failed]"

text \<open>A server that completes the \<open>FETCH\<close> of a two-byte message.\<close>

definition fetch_completed :: string where
  "fetch_completed =
     ''* 1 FETCH (BODY[] {2}'' @ CRLF @ ''Hi'' @ CRLF @ '')'' @ CRLF
       @ ''A003 OK FETCH completed'' @ CRLF"

definition imap_greeting :: string where
  "imap_greeting = ''* OK IMAP4rev1 ready'' @ CRLF"

subsection \<open>The round trip of send-smtp-raw.py and test-imap-e2e.py\<close>

text \<open>
  The subject of the message submitted at \<open>timestamp\<close> (line 44 of send-smtp-raw.py) and
  the marker looked for in the body (line 52 of test-imap-e2e.py).
\<close>

definition subject :: "string \<Rightarrow> string" where
  "subject timestamp = ''E2E Test Email - '' @ timestamp"

definition marker :: string where
  "marker = ''full stack is working''"

text \<open>What \<open>send_email\<close> writes to the socket, in order.\<close>

definition smtp_lines :: "string \<Rightarrow> string \<Rightarrow> string list" where
  "smtp_lines timestamp date =
     [''EHLO test-client'' @ CRLF,
      ''MAIL FROM:<sender@example.com>'' @ CRLF,
      ''RCPT TO:<test@example.com>'' @ CRLF,
      ''DATA'' @ CRLF,
      email_content timestamp date,
      ''QUIT'' @ CRLF]"

text \<open>
  What the specification has the scenario assert of the fetched content: the subject
  that was submitted, and the marker.
\<close>

definition asserted_spec :: "string \<Rightarrow> string \<Rightarrow> bool" where
  "asserted_spec timestamp response =
     (py_in (subject timestamp) response \<and> py_in marker response)"

text \<open>The message submitted on 1 May 2024 at 10:00:00, as a server returns it.\<close>

definition fresh_reply :: string where
  "fresh_reply =
     ''* 1 FETCH (BODY[] {94}'' @ CRLF
       @ ''Subject: '' @ subject ''2024-05-01 10:00:00'' @ CRLF
       @ CRLF
       @ ''Congratulations! The full stack is working!'' @ CRLF
       @ '')'' @ CRLF
       @ ''A003 OK FETCH completed'' @ CRLF"

text \<open>
  A mailbox whose latest message is left from an earlier run, and does not have the
  body of the test message.
\<close>

definition stale_reply :: string where
  "stale_reply =
     ''* 1 FETCH (BODY[] {88}'' @ CRLF
       @ unlines [''From: sender@example.com'',
                  ''Subject: '' @ subject ''1999-12-31 23:59:59'',
                  [],
                  ''An earlier run.'']
       @ '')'' @ CRLF
       @ ''A003 OK FETCH completed'' @ CRLF"

definition stale_mailbox :: "arrival list" where
  "stale_mailbox =
     [Data imap_greeting,
      Data (''A001 OK LOGIN completed'' @ CRLF),
      Data (''* 1 EXISTS'' @ CRLF @ ''A002 OK SELECT completed'' @ CRLF),
      Data stale_reply,
      Data (''* BYE logging out'' @ CRLF @ ''A004 OK LOGOUT completed'' @ CRLF)]"

text \<open>A server that accepts the message of \<open>send_email\<close>: its greeting and six replies.\<close>

definition smtp_accepting :: "arrival list" where
  "smtp_accepting =
     [Data (''220 mail.example.com ESMTP'' @ CRLF),
      Data (''250 mail.example.com'' @ CRLF),
      Data (''250 OK'' @ CRLF),
      Data (''250 OK'' @ CRLF),
      Data (''354 End data with <CR><LF>.<CR><LF>'' @ CRLF),
      Data (''250 OK: queued'' @ CRLF),
      Data (''221 Bye'' @ CRLF)]"

section \<open>The message count of test-imap-all.py\<close>

lemma star_ne_LF: "CHR ''*'' \<noteq> LF" "CHR '' '' \<noteq> LF" "LF \<noteq> CHR ''*''" "LF \<noteq> CHR '' ''"
  by (simp_all add: LF_def)

lemma py_count_star_Nil: "py_count [] ''* '' = 0"
  by (simp add: py_count.simps)

lemma py_count_star_Cons:
  "py_count (c # cs) ''* '' = (if prefix ''* '' (c # cs) then 1 else 0) + py_count cs ''* ''"
proof (cases "prefix ''* '' (c # cs)")
  case True
  then obtain rest where cs: "cs = CHR '' '' # rest" and c: "c = CHR ''*''"
    by (cases cs) auto
  have "py_count (c # cs) ''* '' = 1 + py_count rest ''* ''"
    using c cs by (subst py_count.simps) simp
  moreover have "py_count cs ''* '' = py_count rest ''* ''"
    using cs by (subst py_count.simps) simp
  ultimately show ?thesis using True by simp
next
  case False
  then show ?thesis by (subst py_count.simps) auto
qed

lemma star_at_Suc: "star_at (c # cs) (Suc i) = star_at cs i"
  by (simp add: star_at_def)

lemma star_at_0: "star_at s 0 = prefix ''* '' s"
  by (simp add: star_at_def)

lemma py_count_star_occurrences:
  "py_count s ''* '' = length (filter (star_at s) [0..<length s])"
proof (induction s)
  case Nil
  show ?case by (simp add: py_count_star_Nil)
next
  case (Cons c cs)
  have "filter (star_at (c # cs)) [0..<length (c # cs)]
        = filter (star_at (c # cs)) (0 # map Suc [0..<length cs])"
    by (simp add: upt_conv_Cons map_Suc_upt del: upt_Suc)
  also have "\<dots> = (if prefix ''* '' (c # cs) then [0] else [])
                   @ map Suc (filter (star_at cs) [0..<length cs])"
    by (simp add: filter_map comp_def star_at_Suc star_at_0 del: prefix_Cons)
  finally show ?case
    using Cons.IH by (simp add: py_count_star_Cons)
qed

lemma py_in_sublist: "py_in needle hay = sublist needle hay"
  by (induction hay) (auto simp: sublist_Cons_right)

lemma no_star_count: "\<not> py_in ''* '' s \<Longrightarrow> py_count s ''* '' = 0"
  by (induction s) (auto simp: py_count_star_Nil py_count_star_Cons)

lemma split_on_nonempty: "split_on d s \<noteq> []"
  by (induction s) (auto split: list.splits)

lemma split_on_Cons_sep: "split_on d (d # cs) = [] # split_on d cs"
  by simp

lemma split_on_Cons_other:
  "c \<noteq> d \<Longrightarrow> split_on d (c # cs) = (c # hd (split_on d cs)) # tl (split_on d cs)"
  using split_on_nonempty [of d cs] by (cases "split_on d cs") auto

lemma hd_split_prefix_space:
  "prefix '' '' (hd (split_on LF cs)) = prefix '' '' cs"
proof (cases cs)
  case Nil then show ?thesis by simp
next
  case (Cons a as)
  show ?thesis
  proof (cases "a = LF")
    case True then show ?thesis using Cons star_ne_LF by (simp del: split_on.simps add: split_on_Cons_sep)
  next
    case False then show ?thesis using Cons by (simp del: split_on.simps add: split_on_Cons_other)
  qed
qed

lemma lines_first_later:
  "lines_beginning_star s = (if prefix ''* '' s then 1 else 0) + later_lines s"
proof (cases s)
  case Nil then show ?thesis by (simp add: lines_beginning_star_def later_lines_def)
next
  case (Cons c cs)
  show ?thesis
  proof (cases "c = LF")
    case True then show ?thesis using Cons star_ne_LF
      by (simp del: split_on.simps add: split_on_Cons_sep lines_beginning_star_def later_lines_def)
  next
    case False
    have "prefix ''* '' (c # hd (split_on LF cs)) = prefix ''* '' (c # cs)"
      using hd_split_prefix_space [of cs] by simp
    then show ?thesis using Cons False
      by (simp del: split_on.simps prefix_Cons add: lines_beginning_star_def later_lines_def split_on_Cons_other)
  qed
qed

lemma later_lines_Nil: "later_lines [] = 0"
  by (simp add: later_lines_def)

lemma later_lines_Cons:
  "later_lines (c # cs) = (if c = LF then lines_beginning_star cs else later_lines cs)"
  by (simp del: split_on.simps add: later_lines_def lines_beginning_star_def split_on_Cons_other split_on_Cons_sep)

lemma lines_le_count:
  "lines_beginning_star s \<le> py_count s ''* '' \<and> later_lines s \<le> py_count s ''* ''"
proof (induction s)
  case Nil
  show ?case by (simp add: lines_first_later later_lines_Nil py_count_star_Nil)
next
  case (Cons c cs)
  have "later_lines (c # cs) \<le> py_count cs ''* ''"
    using Cons.IH by (simp add: later_lines_Cons)
  then show ?case
    by (simp add: lines_first_later [of "c # cs"] py_count_star_Cons del: prefix_Cons)
qed

lemma at_line_starts_iff:
  "at_line_starts s = (\<forall>i < length s. star_at s i \<longrightarrow> i = 0 \<or> s ! (i - 1) = LF)"
  by (auto simp: at_line_starts_def)

lemma after_imp_at: "after_line_feeds s \<Longrightarrow> at_line_starts s"
  by (auto simp: after_line_feeds_def at_line_starts_iff)

lemma after_no_prefix: "after_line_feeds s \<Longrightarrow> \<not> prefix ''* '' s"
proof
  assume a: "after_line_feeds s" and p: "prefix ''* '' s"
  from p have "0 < length s" by (cases s) auto
  with a p show False by (auto simp: after_line_feeds_def star_at_0)
qed

lemma at_line_starts_tail_LF: "at_line_starts (LF # cs) \<Longrightarrow> at_line_starts cs"
  unfolding at_line_starts_iff
proof (intro allI impI)
  fix i assume a: "\<forall>i<length (LF # cs). star_at (LF # cs) i \<longrightarrow> i = 0 \<or> (LF # cs) ! (i - 1) = LF"
    and i: "i < length cs" and s: "star_at cs i"
  from a [rule_format, of "Suc i"] i s have "(LF # cs) ! i = LF" by (simp add: star_at_Suc)
  then show "i = 0 \<or> cs ! (i - 1) = LF" by (cases i) auto
qed

lemma at_line_starts_tail_other:
  "at_line_starts (c # cs) \<Longrightarrow> c \<noteq> LF \<Longrightarrow> after_line_feeds cs"
  unfolding at_line_starts_iff after_line_feeds_def
proof (intro allI impI)
  fix i assume a: "\<forall>i<length (c # cs). star_at (c # cs) i \<longrightarrow> i = 0 \<or> (c # cs) ! (i - 1) = LF"
    and c: "c \<noteq> LF" and i: "i < length cs" and s: "star_at cs i"
  from a [rule_format, of "Suc i"] i s have "(c # cs) ! i = LF" by (simp add: star_at_Suc)
  with c show "i \<noteq> 0 \<and> cs ! (i - 1) = LF" by (cases i) auto
qed

lemma lines_eq_count:
  "(at_line_starts s \<longrightarrow> lines_beginning_star s = py_count s ''* '')
   \<and> (after_line_feeds s \<longrightarrow> later_lines s = py_count s ''* '')"
proof (induction s)
  case Nil
  show ?case by (simp add: lines_first_later later_lines_Nil py_count_star_Nil)
next
  case (Cons c cs)
  have later: "later_lines (c # cs) = py_count cs ''* ''" if "at_line_starts (c # cs)"
  proof (cases "c = LF")
    case True
    with that have "at_line_starts cs" using at_line_starts_tail_LF by simp
    with Cons.IH True show ?thesis by (simp add: later_lines_Cons)
  next
    case False
    with that have "after_line_feeds cs" using at_line_starts_tail_other by simp
    with Cons.IH False show ?thesis by (simp add: later_lines_Cons)
  qed
  have one: "at_line_starts (c # cs) \<longrightarrow> lines_beginning_star (c # cs) = py_count (c # cs) ''* ''"
    using later by (simp add: lines_first_later [of "c # cs"] py_count_star_Cons del: prefix_Cons)
  have two: "after_line_feeds (c # cs) \<longrightarrow> later_lines (c # cs) = py_count (c # cs) ''* ''"
    using later after_imp_at [of "c # cs"] after_no_prefix [of "c # cs"]
    by (auto simp: py_count_star_Cons simp del: prefix_Cons)
  from one two show ?case by simp
qed

text \<open>
  C2, as amended. \<open>email_count\<close> (line 45 of test-imap-all.py) is the number of
  occurrences of the two characters \<open>"* "\<close> anywhere in the response, minus one. It is
  never less than the number of lines that begin with \<open>"* "\<close> minus one, it equals that
  number when every occurrence of \<open>"* "\<close> stands at the start of a line, and it is \<open>-1\<close>,
  unclamped, for a response in which \<open>"* "\<close> does not occur.
\<close>

theorem email_count_occurrences:
  "email_count s = int (length (filter (star_at s) [0..<length s])) - 1
   \<and> approximateMessageCount_spec s \<le> email_count s
   \<and> (at_line_starts s \<longrightarrow> email_count s = approximateMessageCount_spec s)
   \<and> (\<not> py_in ''* '' s \<longrightarrow> email_count s = - 1)"
  using lines_le_count [of s] lines_eq_count [of s] no_star_count [of s]
  by (simp add: email_count_def approximateMessageCount_spec_def py_count_star_occurrences [symmetric])

text \<open>
  C2 as stated fails: in a \<open>FETCH\<close> response whose message body holds \<open>"* "\<close> one line
  begins with \<open>"* "\<close>, so the stated count is 0, and the script counts 1.
\<close>

theorem email_count_counterexample:
  "email_count fetch_reply = 1 \<and> approximateMessageCount_spec fetch_reply = 0"
  by (simp add: email_count_def approximateMessageCount_spec_def lines_beginning_star_def
      fetch_reply_def CRLF_def LF_def py_count.simps)

theorem email_count_occurrences_witness:
  "at_line_starts two_untagged \<and> email_count two_untagged = 1 \<and>
   \<not> py_in ''* '' ''A003 OK done'' \<and> email_count ''A003 OK done'' = - 1"
proof -
  have a: "at_line_starts two_untagged"
    by (simp add: two_untagged_def at_line_starts_def star_at_def LF_def)
  have b: "\<not> py_in ''* '' ''A003 OK done''" by simp
  have "email_count two_untagged = approximateMessageCount_spec two_untagged"
    using email_count_occurrences [of two_untagged] a by blast
  moreover have "approximateMessageCount_spec two_untagged = 1"
    by (simp add: two_untagged_def approximateMessageCount_spec_def lines_beginning_star_def LF_def)
  moreover have "email_count ''A003 OK done'' = - 1"
    using email_count_occurrences [of "''A003 OK done''"] b by blast
  ultimately show ?thesis using a b by (simp only: simp_thms)
qed

section \<open>One read per command\<close>

lemmas io_defs = io_then_def io_bind_def io_return_def io_raise_def print_line_def emit_def
  sock_sendall_def time_sleep_def sock_recv_def decode_def sock_close_def sock_connect_def

lemma utf8_ok_ascii: "\<forall>b \<in> set bs. b < 0x80 \<Longrightarrow> utf8_ok bs"
  by (induction bs) auto

lemma send_command_e2e_read:
  "one_read (send_command_e2e cmd) cmd 300 8192 (\<lambda>r. [Print (arrow_left @ '' '' @ r)]) w"
  by (auto simp: one_read_def send_command_e2e_def io_defs available_def Let_def
      split: list.splits arrival.splits)

lemma send_command_full_read:
  "one_read (send_command_full cmd) cmd 300 8192 (\<lambda>r. [Print (arrow_left @ '' '' @ r)]) w"
  by (auto simp: one_read_def send_command_full_def io_defs available_def Let_def
      split: list.splits arrival.splits)

lemma send_command_all_read:
  "one_read (send_command_all cmd) cmd 300 16384 (\<lambda>r. []) w"
  by (auto simp: one_read_def send_command_all_def io_defs available_def Let_def
      split: list.splits arrival.splits)

lemma send_command_imap_read:
  "one_read (send_command_imap cmd) cmd 200 4096 (\<lambda>r. [Print (arrow_left @ '' '' @ r)]) w"
  by (auto simp: one_read_def send_command_imap_def io_defs available_def Let_def
      split: list.splits arrival.splits)

lemma send_command_smtp_read:
  "one_read (send_command_smtp cmd) cmd 200 4096
     (\<lambda>r. [Print (arrow_left @ '' '' @ py_strip r)]) w"
  by (auto simp: one_read_def send_command_smtp_def io_defs available_def Let_def
      split: list.splits arrival.splits)

lemma long_reply_cut:
  "send_command_smtp cmd (start True [Data long_reply])
     = (Inr (replicate 4096 CHR ''a''),
        snd (send_command_smtp cmd (start True [Data long_reply])))
   \<and> available (start True [Data long_reply]) = long_reply"
proof -
  have "utf8_ok (map of_char (replicate 4096 CHR ''a''))"
    by (rule utf8_ok_ascii) simp
  then show ?thesis
    by (simp add: send_command_smtp_def io_defs available_def Let_def start_def long_reply_def)
qed

text \<open>
  C10. Every \<open>send_command\<close> of the five scripts prints the command, sends it with
  CRLF, sleeps for a fixed time (300 or 200 ms) and then reads once, at most 8192, 16384
  or 4096 bytes. It returns the decoded bytes of that one read, which are the first bytes
  that had arrived; the bytes beyond the buffer size are not consumed for this command
  and stay in the socket. So the returned text can be a strict prefix of the response:
  of a response of 4097 bytes the SMTP script's \<open>send_command\<close> returns the first 4096.
\<close>

theorem send_command_single_read:
  "one_read (send_command_e2e cmd) cmd 300 8192 (\<lambda>r. [Print (arrow_left @ '' '' @ r)]) w
   \<and> one_read (send_command_full cmd) cmd 300 8192 (\<lambda>r. [Print (arrow_left @ '' '' @ r)]) w
   \<and> one_read (send_command_all cmd) cmd 300 16384 (\<lambda>r. []) w
   \<and> one_read (send_command_imap cmd) cmd 200 4096 (\<lambda>r. [Print (arrow_left @ '' '' @ r)]) w
   \<and> one_read (send_command_smtp cmd) cmd 200 4096
        (\<lambda>r. [Print (arrow_left @ '' '' @ py_strip r)]) w
   \<and> (\<exists>v r v'. send_command_smtp cmd v = (Inr r, v') \<and> strict_prefix r (available v))"
proof -
  have "\<exists>v r v'. send_command_smtp cmd v = (Inr r, v') \<and> strict_prefix r (available v)"
    using long_reply_cut [of cmd]
    by (intro exI [of _ "start True [Data long_reply]"] exI [of _ "replicate 4096 CHR ''a''"]
        exI [of _ "snd (send_command_smtp cmd (start True [Data long_reply]))"])
      (simp add: long_reply_def strict_prefix_def)
  then show ?thesis
    using send_command_e2e_read send_command_full_read send_command_all_read
      send_command_imap_read send_command_smtp_read by blast
qed

theorem send_command_single_read_witness:
  "fst (send_command_smtp ''QUIT'' (start True [Data long_reply])) = Inr (take 4096 long_reply)
   \<and> pending (snd (send_command_smtp ''QUIT'' (start True [Data long_reply]))) = ''b''
   \<and> recvs_of (trace (snd (send_command_smtp ''QUIT'' (start True [Data long_reply])))) = [4096]"
proof -
  have a: "available (start True [Data long_reply]) = long_reply"
    by (simp add: available_def start_def)
  have r: "fst (send_command_smtp ''QUIT'' (start True [Data long_reply]))
             = Inr (replicate 4096 CHR ''a'')"
    using long_reply_cut [of "''QUIT''"] by (metis fst_conv)
  have "one_read (send_command_smtp ''QUIT'') ''QUIT'' 200 4096
          (\<lambda>r. [Print (arrow_left @ '' '' @ py_strip r)]) (start True [Data long_reply])"
    using send_command_single_read [of "''QUIT''" "start True [Data long_reply]"] by blast
  then show ?thesis
    using a r
    by (cases "send_command_smtp ''QUIT'' (start True [Data long_reply])")
      (auto simp: one_read_def long_reply_def start_def)
qed

section \<open>What the scripts send\<close>

subsection \<open>Rules for \<open>emits\<close>\<close>

lemma sent_of_append: "sent_of (a @ b) = sent_of a @ sent_of b"
  by (induction a rule: sent_of.induct) auto

lemma additive_sent: "additive sent_of"
  by (simp add: additive_def sent_of_append)

lemma additive_tags: "additive tags_sent"
  by (simp add: additive_def tags_sent_def sent_of_append)

lemma sends_only_additive: "sends_only obs \<Longrightarrow> additive obs"
  by (simp add: sends_only_def)

lemma sends_only_sent: "sends_only sent_of"
  by (simp add: sends_only_def additive_sent)

lemma sends_only_tags: "sends_only tags_sent"
  by (simp add: sends_only_def additive_tags tags_sent_def)

lemma emits_mono: "emits obs m S \<Longrightarrow> set S \<subseteq> set T \<Longrightarrow> emits obs m T"
  unfolding emits_def by (meson subsetD)

lemma emits_return: "additive obs \<Longrightarrow> emits obs (io_return x) [[]]"
  by (simp add: emits_def io_return_def additive_def)

lemma emits_raise: "additive obs \<Longrightarrow> emits obs (io_raise e) [[]]"
  by (simp add: emits_def io_raise_def additive_def)

lemma emits_emit: "emits obs (emit ev) [obs [ev]]"
  by (simp add: emits_def emit_def)

lemma in_seqs: "a \<in> set S \<Longrightarrow> b \<in> set T \<Longrightarrow> a @ b \<in> set (seqs S T)"
  by (auto simp: seqs_def)

lemma emits_bind:
  assumes add: "additive obs" and m: "emits obs m S" and k: "\<And>x. emits obs (k x) T"
  shows "emits obs (io_bind m k) (seqs S T)"
  unfolding emits_def
proof
  fix w
  from m obtain e1 l1 where t1: "trace (snd (m w)) = trace w @ e1" and l1: "l1 \<in> set S"
    and c1: "case fst (m w) of Inr x \<Rightarrow> obs e1 = l1 | Inl e \<Rightarrow> prefix (obs e1) l1"
    unfolding emits_def by blast
  show "\<exists>evs. trace (snd (io_bind m k w)) = trace w @ evs \<and>
          (\<exists>l\<in>set (seqs S T). case fst (io_bind m k w) of Inr x \<Rightarrow> obs evs = l
                                | Inl e \<Rightarrow> prefix (obs evs) l)"
  proof (cases "fst (m w)")
    case (Inl e)
    from k [of undefined] obtain l2 where l2: "l2 \<in> set T"
      unfolding emits_def by blast
    have r: "io_bind m k w = (Inl e, snd (m w))"
      using Inl by (cases "m w") (simp add: io_bind_def)
    have "prefix (obs e1) (l1 @ l2)" using c1 Inl by (simp add: prefix_prefix)
    with t1 l1 l2 r show ?thesis
      by (intro exI [of _ e1]) (auto intro!: bexI [OF _ in_seqs [OF l1 l2]])
  next
    case (Inr x)
    have r: "io_bind m k w = k x (snd (m w))"
      using Inr by (cases "m w") (simp add: io_bind_def)
    from k [of x] obtain e2 l2 where t2: "trace (snd (k x (snd (m w)))) = trace (snd (m w)) @ e2"
      and l2: "l2 \<in> set T"
      and c2: "case fst (k x (snd (m w))) of Inr y \<Rightarrow> obs e2 = l2 | Inl e \<Rightarrow> prefix (obs e2) l2"
      unfolding emits_def by blast
    have o: "obs (e1 @ e2) = l1 @ obs e2" using add c1 Inr by (simp add: additive_def)
    have "case fst (k x (snd (m w))) of Inr y \<Rightarrow> obs (e1 @ e2) = l1 @ l2
          | Inl e \<Rightarrow> prefix (obs (e1 @ e2)) (l1 @ l2)"
      using c2 o by (auto split: sum.splits)
    with t1 t2 r show ?thesis
      by (intro exI [of _ "e1 @ e2"]) (auto intro!: bexI [OF _ in_seqs [OF l1 l2]])
  qed
qed

lemma emits_then:
  "additive obs \<Longrightarrow> emits obs m S \<Longrightarrow> emits obs n T \<Longrightarrow> emits obs (io_then m n) (seqs S T)"
  unfolding io_then_def by (rule emits_bind)

lemma emits_if: "emits obs a S \<Longrightarrow> emits obs b T \<Longrightarrow> emits obs (if c then a else b) (S @ T)"
  by (auto intro: emits_mono)

lemma emits_case_option:
  assumes "emits obs a S" and "\<And>y. emits obs (b y) T"
  shows "emits obs (case opt of None \<Rightarrow> a | Some y \<Rightarrow> b y) (S @ T)"
proof (cases opt)
  case None
  then show ?thesis using emits_mono [OF assms(1), of "S @ T"] by simp
next
  case (Some y)
  then show ?thesis using emits_mono [OF assms(2) [of y], of "S @ T"] by simp
qed

lemma emits_print: "sends_only obs \<Longrightarrow> emits obs (print_line s) [[]]"
  using emits_emit [of obs "Print s"] by (simp add: print_line_def sends_only_def)

lemma emits_sleep: "sends_only obs \<Longrightarrow> emits obs (time_sleep n) [[]]"
  using emits_emit [of obs "Sleep n"] by (simp add: time_sleep_def sends_only_def)

lemma emits_close: "sends_only obs \<Longrightarrow> emits obs sock_close [[]]"
  using emits_emit [of obs Close] by (simp add: sock_close_def sends_only_def)

lemma emits_sendall: "emits obs (sock_sendall b) [obs [SendAll b]]"
  unfolding sock_sendall_def by (rule emits_emit)

lemma emits_connect: "sends_only obs \<Longrightarrow> emits obs (sock_connect h p) [[]]"
proof -
  assume s: "sends_only obs"
  then have o: "obs [Connect h p] = []" "obs [] = []"
    by (simp_all add: sends_only_def additive_def)
  show ?thesis
    unfolding emits_def
  proof
    fix w
    show "\<exists>evs. trace (snd (sock_connect h p w)) = trace w @ evs \<and>
            (\<exists>l\<in>set [[]]. case fst (sock_connect h p w) of Inr x \<Rightarrow> obs evs = l
                            | Inl e \<Rightarrow> prefix (obs evs) l)"
    proof (cases "reachable w")
      case True
      then show ?thesis using o
        by (intro exI [of _ "[Connect h p]"]) (simp add: sock_connect_def emit_def)
    next
      case False
      then show ?thesis using o
        by (intro exI [of _ "[]"]) (simp add: sock_connect_def)
    qed
  qed
qed

lemma sock_recv_trace: "trace (snd (sock_recv n w)) = trace w @ [Recv n]"
  by (simp add: sock_recv_def Let_def split: list.splits arrival.splits)

lemma emits_recv: "sends_only obs \<Longrightarrow> emits obs (sock_recv n) [[]]"
proof -
  assume s: "sends_only obs"
  then have o: "obs [Recv n] = []"
    by (simp add: sends_only_def)
  show ?thesis
    unfolding emits_def
  proof
    fix w
    show "\<exists>evs. trace (snd (sock_recv n w)) = trace w @ evs \<and>
            (\<exists>l\<in>set [[]]. case fst (sock_recv n w) of Inr x \<Rightarrow> obs evs = l
                            | Inl e \<Rightarrow> prefix (obs evs) l)"
      using o by (intro exI [of _ "[Recv n]"]) (simp add: sock_recv_trace split: sum.splits)
  qed
qed

lemma emits_decode: "sends_only obs \<Longrightarrow> emits obs (decode bs) [[]]"
  by (simp add: decode_def emits_return emits_raise sends_only_additive)

lemma emits_recv_decode:
  "sends_only obs \<Longrightarrow> emits obs (io_bind (sock_recv n) decode) [[]]"
  by (rule emits_mono [OF emits_bind [OF sends_only_additive emits_recv emits_decode]])
    (simp_all add: seqs_def)

lemma emits_int_of_group: "additive obs \<Longrightarrow> emits obs (int_of_group ds) [[]]"
  by (simp add: int_of_group_def emits_return emits_raise)

text \<open>The common shape of the \<open>send_command\<close> functions that echo the response.\<close>

lemma emits_send_command_shape:
  assumes s: "sends_only obs"
  shows "emits obs
     (io_then (print_line p)
     (io_then (sock_sendall b)
     (io_then (time_sleep d)
     (io_bind (io_bind (sock_recv n) decode) (\<lambda>response.
      io_then (print_line (q response))
     (io_return response))))))
     [obs [SendAll b]]"
proof -
  note a = sends_only_additive [OF s]
  note r = emits_bind [OF a emits_recv_decode [OF s]
      emits_then [OF a emits_print [OF s] emits_return [OF a]]]
  note e = emits_then [OF a emits_print [OF s]
      emits_then [OF a emits_sendall emits_then [OF a emits_sleep [OF s] r]]]
  show ?thesis
    by (rule emits_mono [OF e]) (simp add: seqs_def)
qed

lemma emits_send_command_imap:
  "sends_only obs \<Longrightarrow> emits obs (send_command_imap cmd) [obs [SendAll (cmd @ CRLF)]]"
  unfolding send_command_imap_def by (rule emits_send_command_shape)

lemma emits_send_command_full:
  "sends_only obs \<Longrightarrow> emits obs (send_command_full cmd) [obs [SendAll (cmd @ CRLF)]]"
  unfolding send_command_full_def by (rule emits_send_command_shape)

lemma emits_send_command_e2e:
  "sends_only obs \<Longrightarrow> emits obs (send_command_e2e cmd) [obs [SendAll (cmd @ CRLF)]]"
  unfolding send_command_e2e_def by (rule emits_send_command_shape)

lemma emits_send_command_all:
  assumes s: "sends_only obs"
  shows "emits obs (send_command_all cmd) [obs [SendAll (cmd @ CRLF)]]"
proof -
  note a = sends_only_additive [OF s]
  note e = emits_then [OF a emits_print [OF s]
      emits_then [OF a emits_sendall emits_then [OF a emits_sleep [OF s] emits_recv_decode [OF s]]]]
  show ?thesis
    unfolding send_command_all_def
    by (rule emits_mono [OF e]) (simp add: seqs_def)
qed

text \<open>From the start of a process: what a whole run has sent.\<close>

lemma emits_start:
  assumes "emits obs m S" and "additive obs"
  shows "\<exists>l \<in> set S. prefix (obs (trace (snd (m (start up arrs))))) l
           \<and> (\<forall>x. fst (m (start up arrs)) = Inr x \<longrightarrow> obs (trace (snd (m (start up arrs)))) = l)"
proof -
  from assms(1) obtain evs l
    where t: "trace (snd (m (start up arrs))) = trace (start up arrs) @ evs" and l: "l \<in> set S"
      and c: "case fst (m (start up arrs)) of Inr x \<Rightarrow> obs evs = l | Inl e \<Rightarrow> prefix (obs evs) l"
    unfolding emits_def by blast
  have "trace (snd (m (start up arrs))) = evs"
    using t by (simp add: start_def)
  with l c show ?thesis
    by (intro bexI [of _ l]) (auto split: sum.splits)
qed

subsection \<open>The commands of test-imap.py\<close>

lemma sent_test_imap:
  "emits sent_of test_imap
     [[''A001 CAPABILITY'' @ CRLF, ''A002 NOOP'' @ CRLF,
       ''A003 LOGIN test@example.com wrongpass'' @ CRLF, ''A004 LOGOUT'' @ CRLF]]"
proof -
  note so = sends_only_sent
  note a = sends_only_additive [OF so]
  note s = emits_send_command_imap [OF so]
  note p = emits_print [OF so]
  note e4 = emits_then [OF a p emits_bind [OF a s emits_then [OF a emits_close [OF so] p]]]
  note e3 = emits_then [OF a p emits_bind [OF a s e4]]
  note e2 = emits_then [OF a p emits_bind [OF a s e3]]
  note e1 = emits_then [OF a p emits_bind [OF a s e2]]
  note e0 = emits_then [OF a p emits_then [OF a emits_connect [OF so]
      emits_bind [OF a emits_recv_decode [OF so] emits_then [OF a p e1]]]]
  show ?thesis
    unfolding test_imap_def
    by (rule emits_mono [OF e0]) (simp add: seqs_def)
qed

subsection \<open>The tags of the two sessions\<close>

lemma tags_flow_after_fetch: "emits tags_sent flow_after_fetch [[''A004'', ''A005'']]"
proof -
  note so = sends_only_tags
  note a = sends_only_additive [OF so]
  note s = emits_send_command_full [OF so]
  note p = emits_print [OF so]
  note e5 = emits_then [OF a p emits_bind [OF a s emits_then [OF a emits_close [OF so] p]]]
  note e4 = emits_then [OF a p emits_then [OF a p emits_bind [OF a s emits_then [OF a p e5]]]]
  show ?thesis
    unfolding flow_after_fetch_def
    by (rule emits_mono [OF e4]) (simp add: seqs_def tags_sent_def tag_of_def DQ_def CRLF_def)
qed

lemma tags_flow_after_select:
  "emits tags_sent flow_after_select [[''A003''], [''A003'', ''A004'', ''A005'']]"
proof -
  note so = sends_only_tags
  note a = sends_only_additive [OF so]
  note s = emits_send_command_full [OF so]
  note p = emits_print [OF so]
  note e = emits_then [OF a p emits_then [OF a p
      emits_bind [OF a s emits_if [OF p tags_flow_after_fetch]]]]
  show ?thesis
    unfolding flow_after_select_def
    by (rule emits_mono [OF e]) (simp add: seqs_def tags_sent_def tag_of_def CRLF_def)
qed

lemma tags_flow_after_login:
  "emits tags_sent flow_after_login
     [[''A002''], [''A002'', ''A003''], [''A002'', ''A003'', ''A004'', ''A005'']]"
proof -
  note so = sends_only_tags
  note a = sends_only_additive [OF so]
  note s = emits_send_command_full [OF so]
  note p = emits_print [OF so]
  note e = emits_then [OF a p emits_then [OF a p
      emits_bind [OF a s emits_if [OF p tags_flow_after_select]]]]
  show ?thesis
    unfolding flow_after_login_def
    by (rule emits_mono [OF e]) (simp add: seqs_def tags_sent_def tag_of_def CRLF_def)
qed

lemma tags_test_complete_flow:
  "emits tags_sent test_complete_flow
     [[''A001''], [''A001'', ''A002''], [''A001'', ''A002'', ''A003''],
      [''A001'', ''A002'', ''A003'', ''A004'', ''A005'']]"
proof -
  note so = sends_only_tags
  note a = sends_only_additive [OF so]
  note s = emits_send_command_full [OF so]
  note p = emits_print [OF so]
  note e = emits_then [OF a p emits_then [OF a emits_connect [OF so]
      emits_bind [OF a emits_recv_decode [OF so] emits_then [OF a p emits_then [OF a p
      emits_bind [OF a s emits_if [OF p tags_flow_after_login]]]]]]]
  show ?thesis
    unfolding test_complete_flow_def
    by (rule emits_mono [OF e]) (simp add: seqs_def tags_sent_def tag_of_def CRLF_def)
qed

lemma tags_fetch_command:
  "emits tags_sent (send_command_e2e (''A003 FETCH '' @ py_str (int n) @ '' BODY[]''))
     [[''A003'']]"
  by (rule emits_mono [OF emits_send_command_e2e [OF sends_only_tags]])
    (simp add: tags_sent_def tag_of_def)

lemma tags_fetch_latest: "emits tags_sent (fetch_latest ds) [[''A003'']]"
proof -
  note so = sends_only_tags
  note a = sends_only_additive [OF so]
  note p = emits_print [OF so]
  note r = emits_if [OF emits_then [OF a p emits_then [OF a p emits_then [OF a p
      emits_if [OF p emits_return [OF a]]]]] p]
  note e = emits_bind [OF a emits_int_of_group [OF a]
      emits_then [OF a p emits_then [OF a p emits_bind [OF a tags_fetch_command r]]]]
  show ?thesis
    unfolding fetch_latest_def
    by (rule emits_mono [OF e]) (simp add: seqs_def)
qed

lemma tags_test_imap_read:
  "emits tags_sent test_imap_read
     [[''A001'', ''A002'', ''A004''], [''A001'', ''A002'', ''A003'', ''A004'']]"
proof -
  note so = sends_only_tags
  note a = sends_only_additive [OF so]
  note s = emits_send_command_e2e [OF so]
  note p = emits_print [OF so]
  note c = emits_case_option [OF emits_return [OF a] tags_fetch_latest]
  note e4 = emits_then [OF a p emits_bind [OF a s emits_then [OF a emits_close [OF so] p]]]
  note e2 = emits_then [OF a p emits_bind [OF a s emits_then [OF a c e4]]]
  note e = emits_then [OF a p emits_then [OF a emits_connect [OF so]
      emits_bind [OF a emits_recv_decode [OF so] emits_then [OF a p emits_then [OF a p
      emits_bind [OF a s e2]]]]]]
  show ?thesis
    unfolding test_imap_read_def
    by (rule emits_mono [OF e]) (simp add: seqs_def tags_sent_def tag_of_def CRLF_def)
qed

lemma increasing_prefix:
  "list_all tags_increasing (prefixes l) \<Longrightarrow> prefix ts l \<Longrightarrow> tags_increasing ts"
  by (simp add: list_all_iff)

lemmas tag_defs = tags_increasing_def well_formed_tag_def tag_number_def tag_digit_def
  tag_digit_val_def list_less_def

text \<open>
  C4. On the session of \<open>test_complete_flow\<close> and on the session of \<open>test_imap_read\<close>,
  whatever the server answers and wherever an exception ends the run, the tags of the
  commands sent have the format \<open>A%03d\<close>, begin with \<open>A001\<close>, and each is greater than
  the one before it both as a string and as a number; so none is used twice.
\<close>

theorem tags_strictly_increasing:
  "tags_increasing (tags_sent (trace (snd (test_complete_flow (start up arrs)))))
   \<and> tags_increasing (tags_sent (trace (snd (test_imap_read (start up arrs)))))"
proof
  from emits_start [OF tags_test_complete_flow additive_tags, of up arrs]
  obtain l where l: "l \<in> set [[''A001''], [''A001'', ''A002''], [''A001'', ''A002'', ''A003''],
      [''A001'', ''A002'', ''A003'', ''A004'', ''A005'']]"
    and p: "prefix (tags_sent (trace (snd (test_complete_flow (start up arrs))))) l"
    by blast
  have "list_all tags_increasing (prefixes l)"
    using l by (auto simp: tag_defs)
  then show "tags_increasing (tags_sent (trace (snd (test_complete_flow (start up arrs)))))"
    using p by (rule increasing_prefix)
next
  from emits_start [OF tags_test_imap_read additive_tags, of up arrs]
  obtain l where l: "l \<in> set [[''A001'', ''A002'', ''A004''],
      [''A001'', ''A002'', ''A003'', ''A004'']]"
    and p: "prefix (tags_sent (trace (snd (test_imap_read (start up arrs))))) l"
    by blast
  have "list_all tags_increasing (prefixes l)"
    using l by (auto simp: tag_defs)
  then show "tags_increasing (tags_sent (trace (snd (test_imap_read (start up arrs)))))"
    using p by (rule increasing_prefix)
qed

section \<open>Runs in which no read fails\<close>

lemma ascii_utf8: "ascii s \<Longrightarrow> utf8_ok (map of_char s)"
  by (rule utf8_ok_ascii) (auto simp: ascii_def list_all_iff)

lemma ascii_append: "ascii (a @ b) = (ascii a \<and> ascii b)"
  by (simp add: ascii_def)

lemma ascii_take: "ascii s \<Longrightarrow> ascii (take n s)"
  by (auto simp: ascii_def list_all_iff dest: in_set_takeD)

lemma ascii_drop: "ascii s \<Longrightarrow> ascii (drop n s)"
  by (auto simp: ascii_def list_all_iff dest: in_set_dropD)

lemma clean_trace: "clean (w\<lparr>trace := t\<rparr>) = clean w"
  by (simp add: clean_def)

lemma returns_return: "returns (io_return x)"
  by (simp add: returns_def io_return_def)

lemma returns_emit: "returns (emit ev)"
  by (simp add: returns_def emit_def clean_trace)

lemma returns_print: "returns (print_line s)"
  unfolding print_line_def by (rule returns_emit)

lemma returns_sleep: "returns (time_sleep n)"
  unfolding time_sleep_def by (rule returns_emit)

lemma returns_sendall: "returns (sock_sendall b)"
  unfolding sock_sendall_def by (rule returns_emit)

lemma returns_close: "returns sock_close"
  unfolding sock_close_def by (rule returns_emit)

lemma returns_connect: "returns (sock_connect h p)"
  by (simp add: returns_def sock_connect_def emit_def clean_def)

lemma returns_bind:
  assumes "returns m" and "\<And>x. returns (k x)"
  shows "returns (io_bind m k)"
  unfolding returns_def
proof (intro allI impI)
  fix w assume c: "clean w"
  with assms(1) obtain x where x: "fst (m w) = Inr x" and c1: "clean (snd (m w))"
    unfolding returns_def by blast
  then have "io_bind m k w = k x (snd (m w))"
    by (cases "m w") (simp add: io_bind_def)
  with assms(2) [of x] c1 show "clean (snd (io_bind m k w)) \<and> (\<exists>x. fst (io_bind m k w) = Inr x)"
    unfolding returns_def by simp
qed

lemma returns_then: "returns m \<Longrightarrow> returns n \<Longrightarrow> returns (io_then m n)"
  unfolding io_then_def by (rule returns_bind)

lemma returns_if: "returns a \<Longrightarrow> returns b \<Longrightarrow> returns (if c then a else b)"
  by simp

lemma returns_recv_decode: "returns (io_bind (sock_recv n) decode)"
  unfolding returns_def
proof (intro allI impI)
  fix w assume c: "clean w"
  show "clean (snd (io_bind (sock_recv n) decode w))
        \<and> (\<exists>x. fst (io_bind (sock_recv n) decode w) = Inr x)"
  proof (cases "arrivals w")
    case Nil
    with c show ?thesis
      by (simp add: io_defs Let_def clean_def ascii_take ascii_drop ascii_utf8)
  next
    case (Cons a rest)
    with c obtain bs where a: "a = Data bs" and b: "ascii bs"
      by (cases a) (auto simp: clean_def)
    have "ascii (pending w @ bs)" using c b by (simp add: clean_def ascii_append)
    then have "utf8_ok (map of_char (take n (pending w @ bs)))" "ascii (drop n (pending w @ bs))"
      by (simp_all add: ascii_take ascii_drop ascii_utf8 del: take_append drop_append)
    with c Cons a show ?thesis
      by (simp add: io_defs Let_def clean_def del: take_append drop_append)
  qed
qed

lemma returns_send_command_shape:
  "returns
     (io_then (print_line p)
     (io_then (sock_sendall b)
     (io_then (time_sleep d)
     (io_bind (io_bind (sock_recv n) decode) (\<lambda>response.
      io_then (print_line (q response))
     (io_return response))))))"
  by (intro returns_then returns_bind returns_print returns_sendall returns_sleep
      returns_recv_decode returns_return)

lemma returns_send_command_imap: "returns (send_command_imap cmd)"
  unfolding send_command_imap_def by (rule returns_send_command_shape)

lemma returns_send_command_full: "returns (send_command_full cmd)"
  unfolding send_command_full_def by (rule returns_send_command_shape)

lemma returns_test_imap: "returns test_imap"
  unfolding test_imap_def
  by (intro returns_then returns_bind returns_print returns_connect returns_close
      returns_recv_decode returns_send_command_imap)

lemma returns_flow_after_fetch: "returns flow_after_fetch"
  unfolding flow_after_fetch_def
  by (intro returns_then returns_bind returns_print returns_connect returns_close
      returns_recv_decode returns_send_command_full)

lemma returns_flow_after_select: "returns flow_after_select"
  unfolding flow_after_select_def
  by (intro returns_then returns_bind returns_if returns_print returns_flow_after_fetch
      returns_send_command_full)

lemma returns_flow_after_login: "returns flow_after_login"
  unfolding flow_after_login_def
  by (intro returns_then returns_bind returns_if returns_print returns_flow_after_select
      returns_send_command_full)

lemma returns_test_complete_flow: "returns test_complete_flow"
  unfolding test_complete_flow_def
  by (intro returns_then returns_bind returns_if returns_print returns_connect
      returns_recv_decode returns_flow_after_login returns_send_command_full)

section \<open>The invalid-credentials scenario of test-imap.py\<close>

lemmas run_defs = io_defs start_def Let_def CRLF_def LF_def DQ_def
  arrow_left_def arrow_right_def check_mark_def cross_mark_def party_def warning_sign_def
  cont_byte_def

lemma status_returns: "fst (m w) = Inr x \<Longrightarrow> script_status m w = 0"
  by (simp add: script_status_def)

lemma clean_login_accepted: "clean (start True login_accepted)"
  by (simp add: clean_def ascii_def start_def login_accepted_def CRLF_def)

text \<open>
  C5, as amended. \<open>test_imap\<close> sends \<open>A003 LOGIN test@example.com wrongpass\<close> after
  \<open>CAPABILITY\<close> and \<open>NOOP\<close>, prints what it reads and goes on to \<open>LOGOUT\<close> without looking
  at the response: whatever the server answers, the commands sent are the beginning of
  these four, and none of them is a \<open>SELECT\<close>. Whenever the function returns, that is when
  no send or read has failed, all four have been sent and the exit status is 0; it does
  return when the server can be reached, the connection is not reset and what arrives is
  ASCII.
\<close>

theorem login_reply_unchecked:
  "prefix (sent_of (trace (snd (test_imap (start up arrs))))) imap_commands
   \<and> list_all (\<lambda>c. \<not> py_in ''SELECT'' c) (sent_of (trace (snd (test_imap (start up arrs)))))
   \<and> (clean (start up arrs) \<longrightarrow>
        fst (test_imap (start up arrs)) = Inr ()
        \<and> sent_of (trace (snd (test_imap (start up arrs)))) = imap_commands
        \<and> script_status test_imap (start up arrs) = 0)
   \<and> (\<forall>x. fst (test_imap (start up arrs)) = Inr x \<longrightarrow>
        sent_of (trace (snd (test_imap (start up arrs)))) = imap_commands
        \<and> script_status test_imap (start up arrs) = 0)"
proof -
  from emits_start [OF sent_test_imap additive_sent, of up arrs]
  have p: "prefix (sent_of (trace (snd (test_imap (start up arrs))))) imap_commands"
    and e: "\<And>x. fst (test_imap (start up arrs)) = Inr x
              \<Longrightarrow> sent_of (trace (snd (test_imap (start up arrs)))) = imap_commands"
    by (simp_all add: imap_commands_def)
  have "list_all (\<lambda>c. \<not> py_in ''SELECT'' c) imap_commands"
    by (simp add: imap_commands_def CRLF_def)
  then have n: "list_all (\<lambda>c. \<not> py_in ''SELECT'' c)
                  (sent_of (trace (snd (test_imap (start up arrs)))))"
    using p by (auto simp: list_all_iff dest: set_mono_prefix)
  have "fst (test_imap (start up arrs)) = Inr ()
        \<and> sent_of (trace (snd (test_imap (start up arrs)))) = imap_commands
        \<and> script_status test_imap (start up arrs) = 0"
    if "clean (start up arrs)"
  proof -
    from returns_test_imap that obtain x where "fst (test_imap (start up arrs)) = Inr x"
      unfolding returns_def by blast
    then show ?thesis using e status_returns by simp
  qed
  moreover have "sent_of (trace (snd (test_imap (start up arrs)))) = imap_commands
        \<and> script_status test_imap (start up arrs) = 0"
    if "fst (test_imap (start up arrs)) = Inr x" for x
    using that e status_returns [of test_imap "start up arrs" x] by simp
  ultimately show ?thesis using p n by blast
qed

theorem login_reply_unchecked_witness:
  "clean (start True login_accepted)
   \<and> fst (test_imap (start True login_accepted)) = Inr ()
   \<and> sent_of (trace (snd (test_imap (start True login_accepted)))) = imap_commands"
  using login_reply_unchecked [of True login_accepted] clean_login_accepted by simp

text \<open>
  C5 as stated fails. A server that answers \<open>OK\<close> to the login with the wrong password
  is not found out: the script prints the response, sends \<open>LOGOUT\<close> next (and never a
  \<open>SELECT\<close>), ends with its usual last line and exits with status 0.
\<close>

theorem login_unchecked_counterexample:
  "(case test_imap (start True login_accepted) of
      (r, w) \<Rightarrow>
        r = Inr ()
        \<and> sent_of (trace w) = imap_commands
        \<and> Print (arrow_left @ '' A003 OK LOGIN completed'' @ CRLF) \<in> set (trace w)
        \<and> last (trace w) = Print (LF # ''=== Tests completed ===''))
   \<and> script_status test_imap (start True login_accepted) = 0"
proof -
  have "case test_imap (start True login_accepted) of
      (r, w) \<Rightarrow>
        r = Inr ()
        \<and> sent_of (trace w) = imap_commands
        \<and> Print (arrow_left @ '' A003 OK LOGIN completed'' @ CRLF) \<in> set (trace w)
        \<and> last (trace w) = Print (LF # ''=== Tests completed ==='')"
    by (simp add: test_imap_def send_command_imap_def login_accepted_def imap_commands_def
        run_defs)
  then show ?thesis
    by (auto simp: script_status_def split: prod.splits)
qed

section \<open>test\_spf\_dkim.py: the mailbox, the header check and the exit status\<close>

lemma print_line_apply: "print_line s w = (Inr (), w\<lparr>trace := trace w @ [Print s]\<rparr>)"
  by (simp add: print_line_def emit_def)

lemma time_sleep_apply: "time_sleep n w = (Inr (), w\<lparr>trace := trace w @ [Sleep n]\<rparr>)"
  by (simp add: time_sleep_def emit_def)

lemma io_return_apply: "io_return x w = (Inr x, w)"
  by (simp add: io_return_def)

lemma io_bind_apply:
  "io_bind m k w = (case m w of (Inl e, w') \<Rightarrow> (Inl e, w') | (Inr x, w') \<Rightarrow> k x w')"
  by (simp add: io_bind_def)

lemma io_then_apply:
  "io_then m n w = (case m w of (Inl e, w') \<Rightarrow> (Inl e, w') | (Inr x, w') \<Rightarrow> n w')"
  by (simp add: io_then_def io_bind_def)

lemmas apply_defs = print_line_apply time_sleep_apply io_return_apply io_bind_apply io_then_apply

lemma io_seq_prints:
  "io_seq (map (\<lambda>l. print_line (f l)) ls) w = (Inr (), w\<lparr>trace := trace w @ map (\<lambda>l. Print (f l)) ls\<rparr>)"
  by (induction ls arbitrary: w) (simp_all add: apply_defs)

lemma latest_email_result:
  "latest_email w =
     (case listing (dirs w) of
        [] \<Rightarrow> Inr None
      | e # es \<Rightarrow> (case max_ctime (e # es) of Inl x \<Rightarrow> Inl x | Inr f \<Rightarrow> Inr (Some f)),
      w\<lparr>trace := trace w @
          (if dirs w (maildir_of (dirs w)) = None
           then [Print (cross_mark @ '' Maildir not found: '' @ fallback_dir)]
           else if listing (dirs w) = []
           then [Print (cross_mark @ '' No emails found in mailbox'')]
           else [])\<rparr>)"
  by (auto simp: latest_email_def path_exists_def glob_star_def io_defs listing_def maildir_of_def
      primary_dir_def fallback_dir_def Let_def simp del: max_ctime.simps
      split: option.splits list.splits sum.splits)

lemma report_header_result:
  "fst (report_header c w) = Inr (py_in ''Authentication-Results:'' c)"
  by (simp add: report_header_def Let_def apply_defs io_seq_prints)

lemma report_header_dirs:
  "dirs (snd (report_header c w)) = dirs w"
  by (simp add: report_header_def Let_def apply_defs io_seq_prints)

lemma check_result:
  "fst (check_authentication_header w) =
     (case listing (dirs w) of
        [] \<Rightarrow> Inr False
      | e # es \<Rightarrow>
          (case max_ctime (e # es) of
             Inl x \<Rightarrow> Inl x
           | Inr f \<Rightarrow>
               (case file_text f of
                  Inl x \<Rightarrow> Inl x
                | Inr c \<Rightarrow> Inr (py_in ''Authentication-Results:'' c))))"
  by (simp add: check_authentication_header_def apply_defs latest_email_result read_file_def
      report_header_result del: max_ctime.simps split: list.splits sum.splits prod.splits)

lemma send_result:
  "fst (send_test_email w) = Inr (\<not> smtp_raises w) \<and> dirs (snd (send_test_email w)) = dirs w"
  by (auto simp: send_test_email_def with_smtp_def smtp_call_def smtp_raises_def io_catch_def
      io_defs split: option.splits prod.splits sum.splits)

subsection \<open>The latest message\<close>

lemma unreadable_time_Nil: "unreadable_time [] = None"
  by (simp add: unreadable_time_def map_filter_simps)

lemma unreadable_time_Cons:
  "unreadable_time (x # xs) = (case ctime x of Inl e \<Rightarrow> Some e | Inr t \<Rightarrow> unreadable_time xs)"
  by (simp add: unreadable_time_def map_filter_simps split: sum.splits)

lemma unreadable_time_None:
  "unreadable_time xs = None \<longleftrightarrow> (\<forall>g \<in> set xs. \<exists>u. ctime g = Inr u)"
  by (induction xs) (auto simp: unreadable_time_Nil unreadable_time_Cons split: sum.splits)

lemma max_from_fails: "max_from t b xs = Inl e \<longleftrightarrow> unreadable_time xs = Some e"
  by (induction xs arbitrary: t b)
    (auto simp: unreadable_time_Nil unreadable_time_Cons split: sum.splits)

lemma max_ctime_fails: "max_ctime (x # xs) = Inl e \<longleftrightarrow> unreadable_time (x # xs) = Some e"
  by (simp add: unreadable_time_Cons max_from_fails split: sum.splits)

lemma max_from_greatest:
  "ctime b = Inr t \<Longrightarrow> max_from t b xs = Inr f \<Longrightarrow>
   f \<in> set (b # xs)
   \<and> (\<exists>tf. ctime f = Inr tf \<and> t \<le> tf \<and> (\<forall>g \<in> set xs. \<exists>u. ctime g = Inr u \<and> u \<le> tf))"
proof (induction xs arbitrary: t b)
  case Nil
  then show ?case by simp
next
  case (Cons x xs)
  from Cons.prems(2) obtain u where u: "ctime x = Inr u"
    by (cases "ctime x") simp_all
  show ?case
  proof (cases "t < u")
    case True
    with Cons.prems(2) u have m: "max_from u x xs = Inr f" by simp
    from Cons.IH [OF u m] True u show ?thesis by auto
  next
    case False
    with Cons.prems(2) u have m: "max_from t b xs = Inr f" by simp
    from Cons.IH [OF Cons.prems(1) m] False u show ?thesis by auto
  qed
qed

lemma max_ctime_greatest:
  assumes "max_ctime xs = Inr f"
  shows "f \<in> set xs \<and> (\<exists>t. ctime f = Inr t \<and> (\<forall>g \<in> set xs. \<exists>u. ctime g = Inr u \<and> u \<le> t))"
proof (cases xs)
  case Nil
  with assms show ?thesis by simp
next
  case (Cons x ys)
  with assms obtain t where t: "ctime x = Inr t" and m: "max_from t x ys = Inr f"
    by (cases "ctime x") simp_all
  from max_from_greatest [OF t m] t Cons show ?thesis by auto
qed

lemma appended_trace: "trace (snd (m w)) = trace w @ evs \<Longrightarrow> appended m w = evs"
  by (simp add: appended_def)

text \<open>
  C6, as amended. The mailbox is looked for under the primary root, and under the
  alternate root exactly when the primary directory does not exist. \<open>latest_email\<close> finds
  nothing exactly when that directory is absent or lists no file, and then prints which
  of the two it was; an existing primary directory that lists no file is the second
  case, the alternate root is not tried then. When files are listed, the creation time
  of each is read: if one cannot be read, the exception of the first such file leaves
  the function, and nothing is selected; otherwise the result is a listed file whose
  creation time no listed file exceeds (the first such in the order of the listing).
\<close>

theorem latest_message:
  "fst (latest_email w)
     = (case listing (dirs w) of
          [] \<Rightarrow> Inr None
        | e # es \<Rightarrow> (case max_ctime (e # es) of Inl x \<Rightarrow> Inl x | Inr f \<Rightarrow> Inr (Some f)))
   \<and> maildir_of (dirs w) = (if dirs w primary_dir = None then fallback_dir else primary_dir)
   \<and> (fst (latest_email w) = Inr None
        \<longleftrightarrow> dirs w (maildir_of (dirs w)) = None \<or> listing (dirs w) = [])
   \<and> (\<forall>x. fst (latest_email w) = Inl x \<longleftrightarrow> unreadable_time (listing (dirs w)) = Some x)
   \<and> (\<forall>f. fst (latest_email w) = Inr (Some f)
        \<longrightarrow> f \<in> set (listing (dirs w))
            \<and> (\<exists>t. ctime f = Inr t
                 \<and> (\<forall>g \<in> set (listing (dirs w)). \<exists>u. ctime g = Inr u \<and> u \<le> t)))
   \<and> (listing (dirs w) \<noteq> [] \<and> unreadable_time (listing (dirs w)) = None
        \<longrightarrow> (\<exists>f. fst (latest_email w) = Inr (Some f)))
   \<and> appended latest_email w =
        (if dirs w (maildir_of (dirs w)) = None
         then [Print (cross_mark @ '' Maildir not found: '' @ fallback_dir)]
         else if listing (dirs w) = []
         then [Print (cross_mark @ '' No emails found in mailbox'')]
         else [])"
proof -
  have a: "appended latest_email w =
        (if dirs w (maildir_of (dirs w)) = None
         then [Print (cross_mark @ '' Maildir not found: '' @ fallback_dir)]
         else if listing (dirs w) = []
         then [Print (cross_mark @ '' No emails found in mailbox'')]
         else [])"
    by (rule appended_trace) (simp add: latest_email_result)
  have n: "dirs w (maildir_of (dirs w)) = None \<Longrightarrow> listing (dirs w) = []"
    by (simp add: listing_def)
  have r: "fst (latest_email w)
     = (case listing (dirs w) of
          [] \<Rightarrow> Inr None
        | e # es \<Rightarrow> (case max_ctime (e # es) of Inl x \<Rightarrow> Inl x | Inr f \<Rightarrow> Inr (Some f)))"
    by (simp add: latest_email_result)
  have m: "maildir_of (dirs w) = (if dirs w primary_dir = None then fallback_dir else primary_dir)"
    by (simp add: maildir_of_def)
  have e: "fst (latest_email w) = Inr None
        \<longleftrightarrow> dirs w (maildir_of (dirs w)) = None \<or> listing (dirs w) = []"
  proof (cases "listing (dirs w)")
    case Nil
    then show ?thesis by (simp add: r)
  next
    case (Cons e es)
    with n have "dirs w (maildir_of (dirs w)) \<noteq> None" by auto
    with Cons show ?thesis by (simp add: r del: max_ctime.simps split: sum.splits)
  qed
  have x: "fst (latest_email w) = Inl x \<longleftrightarrow> unreadable_time (listing (dirs w)) = Some x" for x
  proof (cases "listing (dirs w)")
    case Nil
    then show ?thesis by (simp add: r unreadable_time_Nil)
  next
    case (Cons e es)
    show ?thesis
      using max_ctime_fails [of e es x]
      by (cases "max_ctime (e # es)") (simp_all add: r Cons del: max_ctime.simps)
  qed
  have g: "f \<in> set (listing (dirs w))
            \<and> (\<exists>t. ctime f = Inr t
                 \<and> (\<forall>g \<in> set (listing (dirs w)). \<exists>u. ctime g = Inr u \<and> u \<le> t))"
    if "fst (latest_email w) = Inr (Some f)" for f
  proof -
    from that obtain e es where l: "listing (dirs w) = e # es" and f: "max_ctime (e # es) = Inr f"
      by (auto simp: r simp del: max_ctime.simps split: list.splits sum.splits)
    show ?thesis using max_ctime_greatest [OF f] l by simp
  qed
  have s: "\<exists>f. fst (latest_email w) = Inr (Some f)"
    if "listing (dirs w) \<noteq> [] \<and> unreadable_time (listing (dirs w)) = None"
  proof -
    from that obtain e es where l: "listing (dirs w) = e # es"
      by (cases "listing (dirs w)") auto
    have "\<not> (\<exists>x. max_ctime (e # es) = Inl x)"
      using that l max_ctime_fails [of e es] by simp
    then obtain f where "max_ctime (e # es) = Inr f"
      by (cases "max_ctime (e # es)") auto
    then show ?thesis by (simp add: r l del: max_ctime.simps)
  qed
  from r m e x g s a show ?thesis by blast
qed

theorem latest_message_witness:
  "fst (latest_email (start_spf None three_files)) = Inr (Some (plain_file ''b'' 5 ''y''))
   \<and> plain_file ''b'' 5 ''y'' \<in> set (listing three_files)
   \<and> unreadable_time (listing three_files) = None"
proof -
  have l: "listing three_files = [plain_file ''a'' 1 ''x'', plain_file ''b'' 5 ''y'', plain_file ''c'' 5 ''z'']"
    by (simp add: listing_def maildir_of_def three_files_def primary_dir_def fallback_dir_def
        plain_file_def)
  have d: "dirs (start_spf None three_files) = three_files"
    by (simp add: start_spf_def)
  have u: "unreadable_time (listing three_files) = None"
    by (simp add: l unreadable_time_Cons unreadable_time_Nil plain_file_def)
  have "fst (latest_email (start_spf None three_files)) = Inr (Some (plain_file ''b'' 5 ''y''))"
    using latest_message [of "start_spf None three_files"] by (simp add: d l plain_file_def)
  moreover from this have "plain_file ''b'' 5 ''y'' \<in> set (listing (dirs (start_spf None three_files)))"
    using latest_message [of "start_spf None three_files"] by blast
  ultimately show ?thesis using u by (simp add: d)
qed

text \<open>
  C6 as stated fails. The mailbox directory exists and lists two entries, a symbolic
  link whose target is missing and a delivered message: the message is not selected and
  nothing is reported as not found, the \<open>OSError\<close> of \<open>os.path.getctime\<close> leaves the
  function.
\<close>

theorem latest_message_counterexample:
  "listing (dirs (start_spf None linked_mailbox))
     = [dangling_link, plain_file ''1764763200.M1'' 1764763200 bare_header]
   \<and> dirs (start_spf None linked_mailbox) (maildir_of (dirs (start_spf None linked_mailbox)))
       \<noteq> None
   \<and> (case latest_email (start_spf None linked_mailbox) of
        (r, w) \<Rightarrow> r = Inl OSError \<and> trace w = [])"
proof -
  have l: "listing (dirs (start_spf None linked_mailbox))
     = [dangling_link, plain_file ''1764763200.M1'' 1764763200 bare_header]"
    by (simp add: listing_def maildir_of_def linked_mailbox_def start_spf_def plain_file_def
        dangling_link_def)
  have d: "dirs (start_spf None linked_mailbox)
             (maildir_of (dirs (start_spf None linked_mailbox))) \<noteq> None"
    by (simp add: maildir_of_def linked_mailbox_def start_spf_def)
  have "case latest_email (start_spf None linked_mailbox) of
        (r, w) \<Rightarrow> r = Inl OSError \<and> trace w = []"
    using d by (simp add: latest_email_result l) (simp add: dangling_link_def start_spf_def)
  with l d show ?thesis by blast
qed

subsection \<open>The header check\<close>

lemma report_header_trace:
  "py_in ''Authentication-Results:'' c \<Longrightarrow>
   trace (snd (report_header c v)) = trace v @
     [Print (check_mark @ '' Authentication-Results header found!'')]
     @ map (\<lambda>line. Print (''   '' @ py_strip line)) (filter shown_line (split_on LF c))
     @ [Print (LF # chart_sign @ '' Validation Results:''),
        Print (''   SPF validated: ''
               @ (if py_in ''spf='' (py_lower c) then check_mark else cross_mark)),
        Print (''   DKIM validated: ''
               @ (if py_in ''dkim='' (py_lower c) then check_mark else cross_mark))]"
  by (simp add: report_header_def Let_def apply_defs io_seq_prints)

lemma py_lower_kelvin_sign:
  "py_in ''dkim='' (py_lower (''D'' @ [CHR 0xE2, CHR 0x84, CHR 0xAA] @ ''IM=''))"
  by (simp add: lower_char_def)

text \<open>
  C9, as amended. The inspection step returns \<open>True\<close> exactly when the mailbox lists a
  file, the creation time of every listed file can be read, and the latest file, read
  as text, contains \<open>Authentication-Results:\<close> anywhere (in a header or in the body, at
  the start of a line or not). It returns \<open>False\<close> when no file is found or the text does
  not contain these characters. The exception of \<open>os.path.getctime\<close> leaves it when a
  creation time cannot be read, and the exception of the read when the latest file
  cannot be read. The tokens \<open>spf=\<close> and \<open>dkim=\<close>,
  looked for in the lower-cased text of the whole file, decide only which mark the two
  lines of the report carry.
\<close>

theorem header_check_result:
  "fst (check_authentication_header w) =
     (case listing (dirs w) of
        [] \<Rightarrow> Inr False
      | e # es \<Rightarrow>
          (case max_ctime (e # es) of
             Inl x \<Rightarrow> Inl x
           | Inr f \<Rightarrow>
               (case file_text f of
                  Inl x \<Rightarrow> Inl x
                | Inr c \<Rightarrow> Inr (sublist ''Authentication-Results:'' c))))
   \<and> fst (report_header c v) = Inr (sublist ''Authentication-Results:'' c)
   \<and> (sublist ''Authentication-Results:'' c \<longrightarrow>
        appended (report_header c) v =
          [Print (check_mark @ '' Authentication-Results header found!'')]
          @ map (\<lambda>line. Print (''   '' @ py_strip line)) (filter shown_line (split_on LF c))
          @ [Print (LF # chart_sign @ '' Validation Results:''),
             Print (''   SPF validated: ''
                    @ (if sublist ''spf='' (py_lower c) then check_mark else cross_mark)),
             Print (''   DKIM validated: ''
                    @ (if sublist ''dkim='' (py_lower c) then check_mark else cross_mark))])"
proof -
  note a = check_result [of w, unfolded py_in_sublist]
  note b = report_header_result [of c v, unfolded py_in_sublist]
  note t = report_header_trace [of c v, unfolded py_in_sublist]
  have "sublist ''Authentication-Results:'' c \<longrightarrow>
        appended (report_header c) v =
          [Print (check_mark @ '' Authentication-Results header found!'')]
          @ map (\<lambda>line. Print (''   '' @ py_strip line)) (filter shown_line (split_on LF c))
          @ [Print (LF # chart_sign @ '' Validation Results:''),
             Print (''   SPF validated: ''
                    @ (if sublist ''spf='' (py_lower c) then check_mark else cross_mark)),
             Print (''   DKIM validated: ''
                    @ (if sublist ''dkim='' (py_lower c) then check_mark else cross_mark))]"
    using t by (simp add: appended_def)
  with a b show ?thesis by blast
qed

lemma header_check_counterexample_aux:
  "fst (check_authentication_header (start_spf None bare_mailbox)) = Inr True"
proof -
  have l: "listing (dirs (start_spf None bare_mailbox))
             = [plain_file ''1764763200.M1'' 1764763200 bare_header]"
    by (simp add: listing_def maildir_of_def bare_mailbox_def start_spf_def plain_file_def)
  have h: "py_in ''Authentication-Results:'' bare_header"
    by (simp add: bare_header_def)
  show ?thesis
    using h by (simp add: check_result l plain_file_def)
qed

text \<open>
  C9 as stated fails: a message with the header and neither token passes the step.
\<close>

theorem header_check_counterexample:
  "fst (check_authentication_header (start_spf None bare_mailbox)) = Inr True
   \<and> \<not> sublist ''spf='' (py_lower bare_header) \<and> \<not> sublist ''dkim='' (py_lower bare_header)"
proof -
  have l: "listing (dirs (start_spf None bare_mailbox))
             = [plain_file ''1764763200.M1'' 1764763200 bare_header]"
    by (simp add: listing_def maildir_of_def bare_mailbox_def start_spf_def plain_file_def)
  have h: "py_in ''Authentication-Results:'' bare_header"
    by (simp add: bare_header_def)
  have t: "\<not> py_in ''spf='' (py_lower bare_header)" "\<not> py_in ''dkim='' (py_lower bare_header)"
    by (simp_all add: bare_header_def lower_char_def LF_def)
  show ?thesis
    using h t by (simp add: check_result l plain_file_def py_in_sublist)
qed

theorem header_check_result_witness:
  "sublist ''Authentication-Results:'' bare_header
   \<and> fst (report_header bare_header (start_spf None bare_mailbox)) = Inr True
   \<and> length (appended (report_header bare_header) (start_spf None bare_mailbox)) = 5"
proof -
  have h: "sublist ''Authentication-Results:'' bare_header"
    by (simp add: bare_header_def py_in_sublist [symmetric])
  have s: "filter shown_line (split_on LF bare_header)
            = [''Authentication-Results: mx.delfour.co; none'']"
    by (simp add: bare_header_def shown_line_def LF_def)
  show ?thesis
    using h header_check_result [of "start_spf None bare_mailbox" bare_header
        "start_spf None bare_mailbox"]
    by (simp add: s)
qed

subsection \<open>The exit status\<close>

lemma check_dirs_only:
  "dirs v = dirs w \<Longrightarrow> fst (check_authentication_header v) = fst (check_authentication_header w)"
  by (simp add: check_result)

lemma main_result:
  "fst (main w) =
     (if smtp_raises w then Inr 1
      else (case fst (check_authentication_header w) of
              Inl e \<Rightarrow> Inl e
            | Inr found \<Rightarrow> Inr (if found then 0 else 1)))"
proof -
  define w0 where "w0 = w\<lparr>trace := trace w @ [Print rule60, Print ''SPF/DKIM Authentication Test'',
      Print rule60]\<rparr>"
  have m: "main w = (case send_test_email w0 of
      (Inl e, w') \<Rightarrow> (Inl e, w')
    | (Inr sent, w') \<Rightarrow>
       (if sent then
          io_bind check_authentication_header (\<lambda>found.
          if found then
            io_then (print_line (LF # rule60))
           (io_then (print_line (check_mark @ '' SPF/DKIM INTEGRATION TEST PASSED!''))
           (io_then (print_line rule60)
           (io_return 0)))
          else
            io_then (print_line (LF # rule60))
           (io_then (print_line (cross_mark @ '' SPF/DKIM INTEGRATION TEST FAILED''))
           (io_then (print_line ''   Authentication header not found in email'')
           (io_then (print_line rule60)
           (io_return 1)))))
        else
          io_then (print_line (LF # rule60))
         (io_then (print_line (cross_mark @ '' SPF/DKIM INTEGRATION TEST FAILED''))
         (io_then (print_line ''   Could not send test email'')
         (io_then (print_line rule60)
         (io_return 1))))) w')"
    unfolding main_def w0_def
    by (simp add: io_then_apply [of "print_line rule60"] io_then_apply [of "print_line ''SPF/DKIM Authentication Test''"] print_line_apply io_bind_apply [of send_test_email])
  obtain w1 where s: "send_test_email w0 = (Inr (\<not> smtp_raises w0), w1)" and d: "dirs w1 = dirs w0"
    using send_result [of w0] by (cases "send_test_email w0") auto
  have r: "smtp_raises w0 = smtp_raises w" by (simp add: w0_def smtp_raises_def)
  have c: "fst (check_authentication_header w1) = fst (check_authentication_header w)"
    by (rule check_dirs_only) (simp add: d w0_def)
  show ?thesis
  proof (cases "smtp_raises w")
    case True
    then show ?thesis using s r by (simp add: m apply_defs)
  next
    case False
    then show ?thesis using s r c
      by (cases "check_authentication_header w1") (auto simp: m apply_defs split: sum.splits)
  qed
qed

lemma exit_status_main:
  "exit_status main w =
     (if \<not> smtp_raises w \<and> fst (check_authentication_header w) = Inr True then 0 else 1)"
  by (cases "fst (check_authentication_header w)") (auto simp: exit_status_def main_result)

text \<open>
  C7, as amended. \<open>test_spf_dkim.py\<close> exits with status 0 exactly when no call of the
  send step raised and the header check returned \<open>True\<close>, and with status 1 otherwise.
  \<open>test-imap-full.py\<close> reports nothing through its exit status: \<open>test_complete_flow\<close>
  returns \<open>None\<close> on every path, so the status is 0 exactly when no exception leaves the
  function, also after a step has failed; in particular it is 0 whatever the server
  answers, as long as no read fails.
\<close>

theorem exit_status_contract:
  "(exit_status main w = 0 \<longleftrightarrow> \<not> smtp_raises w \<and> fst (check_authentication_header w) = Inr True)
   \<and> exit_status main w \<le> 1
   \<and> (script_status test_complete_flow v = 0 \<longleftrightarrow> (\<exists>x. fst (test_complete_flow v) = Inr x))
   \<and> script_status test_complete_flow v \<le> 1
   \<and> (clean (start up arrs) \<longrightarrow> script_status test_complete_flow (start up arrs) = 0)"
proof -
  have a: "exit_status main w = 0 \<longleftrightarrow>
      \<not> smtp_raises w \<and> fst (check_authentication_header w) = Inr True"
    by (simp add: exit_status_main)
  have b: "exit_status main w \<le> 1"
    by (simp add: exit_status_main)
  have c: "script_status test_complete_flow v = 0 \<longleftrightarrow> (\<exists>x. fst (test_complete_flow v) = Inr x)"
    by (cases "fst (test_complete_flow v)") (simp_all add: script_status_def)
  have d: "script_status test_complete_flow v \<le> 1"
    by (cases "fst (test_complete_flow v)") (simp_all add: script_status_def)
  have e: "script_status test_complete_flow (start up arrs) = 0" if "clean (start up arrs)"
  proof -
    from returns_test_complete_flow that
    obtain x where "fst (test_complete_flow (start up arrs)) = Inr x"
      unfolding returns_def by blast
    then show ?thesis by (rule status_returns)
  qed
  from a b c d e show ?thesis by blast
qed

lemma clean_login_refused: "clean (start True login_refused)"
  by (simp add: clean_def ascii_def start_def login_refused_def CRLF_def)

theorem exit_status_contract_witness:
  "clean (start True login_refused)
   \<and> script_status test_complete_flow (start True login_refused) = 0
   \<and> \<not> smtp_raises (start_spf None bare_mailbox)
   \<and> exit_status main (start_spf None bare_mailbox) = 0"
proof -
  have s: "\<not> smtp_raises (start_spf None bare_mailbox)"
    by (simp add: smtp_raises_def start_spf_def)
  have h: "fst (check_authentication_header (start_spf None bare_mailbox)) = Inr True"
    using header_check_counterexample_aux by simp
  show ?thesis
    using clean_login_refused s h
      exit_status_contract [of "start_spf None bare_mailbox" "start True login_refused"
        True login_refused]
    by blast
qed

text \<open>
  C7 as stated fails: when the server refuses the login, \<open>test_complete_flow\<close> prints
  that the login failed, sends nothing more, and the process exits with status 0.
\<close>

theorem exit_status_counterexample:
  "(case test_complete_flow (start True login_refused) of
      (r, w) \<Rightarrow>
        r = Inr ()
        \<and> last (trace w) = Print (cross_mark @ '' LOGIN failed!'')
        \<and> sent_of (trace w) = [''A001 LOGIN test@example.com password123'' @ CRLF])
   \<and> script_status test_complete_flow (start True login_refused) = 0"
proof -
  have "case test_complete_flow (start True login_refused) of
      (r, w) \<Rightarrow>
        r = Inr ()
        \<and> last (trace w) = Print (cross_mark @ '' LOGIN failed!'')
        \<and> sent_of (trace w) = [''A001 LOGIN test@example.com password123'' @ CRLF]"
    by (simp add: test_complete_flow_def send_command_full_def login_refused_def run_defs)
  then show ?thesis
    by (auto simp: script_status_def split: prod.splits)
qed

section \<open>The socket of test-imap-full.py\<close>

text \<open>
  C8 at two servers. When the server refuses the login, \<open>test_complete_flow\<close> returns
  from its first check with the socket connected and not closed; when the connection is
  reset while the response to the login is read, the exception leaves the function with
  the socket connected and not closed.
\<close>

theorem socket_left_open:
  "(case test_complete_flow (start True login_refused) of
      (r, w) \<Rightarrow> r = Inr () \<and> socket_open (trace w))
   \<and> (case test_complete_flow (start True login_reset) of
      (r, w) \<Rightarrow> r = Inl OSError \<and> socket_open (trace w))"
  by (simp add: test_complete_flow_def send_command_full_def login_refused_def login_reset_def
      run_defs socket_open_def)

subsection \<open>The status test of test-imap-full.py\<close>

text \<open>
  Every primitive and every scenario only adds events to the trace, so that what a
  step added can be read off after it.
\<close>

lemma grows_return: "grows (io_return x)"
  by (simp add: grows_def io_return_def)

lemma grows_raise: "grows (io_raise e)"
  by (simp add: grows_def io_raise_def)

lemma grows_emit: "grows (emit ev)"
  by (simp add: grows_def emit_def)

lemma grows_print: "grows (print_line s)"
  unfolding print_line_def by (rule grows_emit)

lemma grows_sleep: "grows (time_sleep n)"
  unfolding time_sleep_def by (rule grows_emit)

lemma grows_sendall: "grows (sock_sendall b)"
  unfolding sock_sendall_def by (rule grows_emit)

lemma grows_close: "grows sock_close"
  unfolding sock_close_def by (rule grows_emit)

lemma grows_connect: "grows (sock_connect h p)"
  by (simp add: grows_def sock_connect_def emit_def)

lemma grows_recv: "grows (sock_recv n)"
  by (simp add: grows_def sock_recv_trace)

lemma grows_decode: "grows (decode bs)"
  by (simp add: decode_def grows_return grows_raise)

lemma grows_bind:
  assumes "grows m" and "\<And>x. grows (k x)"
  shows "grows (io_bind m k)"
  unfolding grows_def
proof
  fix w
  show "prefix (trace w) (trace (snd (io_bind m k w)))"
  proof (cases "m w")
    case (Pair r w1)
    have p: "prefix (trace w) (trace w1)" using assms(1) Pair by (auto simp: grows_def dest: spec [of _ w])
    show ?thesis
    proof (cases r)
      case (Inl e)
      then show ?thesis using Pair p by (simp add: io_bind_def)
    next
      case (Inr x)
      have "prefix (trace w1) (trace (snd (k x w1)))" using assms(2) by (simp add: grows_def)
      with p have "prefix (trace w) (trace (snd (k x w1)))" by (rule prefix_order.trans)
      then show ?thesis using Pair Inr by (simp add: io_bind_def)
    qed
  qed
qed

lemma grows_then: "grows m \<Longrightarrow> grows n \<Longrightarrow> grows (io_then m n)"
  unfolding io_then_def by (rule grows_bind)

lemma grows_if: "grows a \<Longrightarrow> grows b \<Longrightarrow> grows (if c then a else b)"
  by simp

lemmas grows_rules = grows_then grows_bind grows_if grows_print grows_sleep grows_sendall
  grows_close grows_connect grows_recv grows_decode grows_return

lemma grows_send_command_full: "grows (send_command_full cmd)"
  unfolding send_command_full_def by (intro grows_rules)

lemma grows_appended: "grows m \<Longrightarrow> trace (snd (m w)) = trace w @ appended m w"
  by (auto simp: grows_def appended_def prefix_def dest: spec [of _ w])

lemma grows_obtain:
  assumes "grows m"
  obtains evs where "trace (snd (m w)) = trace w @ evs" and "appended m w = evs"
  using grows_appended [OF assms, of w] by blast

lemma first_print:
  assumes "grows n"
  shows "\<exists>evs. appended (io_then (print_line x) n) w = Print x # evs"
proof -
  define w1 where "w1 = w\<lparr>trace := trace w @ [Print x]\<rparr>"
  from assms obtain evs where e: "trace (snd (n w1)) = trace w1 @ evs"
    by (rule grows_obtain)
  have "trace (snd (io_then (print_line x) n w)) = trace w @ Print x # evs"
    using e by (simp add: io_then_apply print_line_apply w1_def)
  then have "appended (io_then (print_line x) n) w = Print x # evs"
    by (rule appended_trace)
  then show ?thesis by blast
qed

lemma send_command_full_ok:
  assumes "arrivals w = Data d # rest" and "utf8_ok (map of_char (take 8192 (pending w @ d)))"
  shows "send_command_full cmd w =
     (Inr (take 8192 (pending w @ d)),
      w\<lparr>trace := trace w @ [Print (arrow_right @ '' '' @ cmd), SendAll (cmd @ CRLF), Sleep 300,
            Recv 8192, Print (arrow_left @ '' '' @ take 8192 (pending w @ d))],
        pending := drop 8192 (pending w @ d), arrivals := rest\<rparr>)"
  using assms by (simp add: send_command_full_def io_defs Let_def del: take_append drop_append)

text \<open>The shape of a checked step\<close>

lemma checked_step:
  assumes a: "arrivals w = Data d # rest" and r: "r = take 8192 (pending w @ d)"
    and u: "utf8_ok (map of_char r)" and g: "grows nxt"
  shows "appended
     (io_then (print_line a1) (io_then (print_line a2)
       (io_bind (send_command_full cmd) (\<lambda>response.
          if \<not> py_in ''OK'' response then print_line f else nxt)))) w
     = [Print a1, Print a2, Print (arrow_right @ '' '' @ cmd), SendAll (cmd @ CRLF), Sleep 300,
        Recv 8192, Print (arrow_left @ '' '' @ r)]
       @ (if py_in ''OK'' r
          then appended nxt (w\<lparr>trace := trace w @ [Print a1, Print a2,
                  Print (arrow_right @ '' '' @ cmd), SendAll (cmd @ CRLF), Sleep 300,
                  Recv 8192, Print (arrow_left @ '' '' @ r)],
                pending := drop 8192 (pending w @ d), arrivals := rest\<rparr>)
          else [Print f])"
proof -
  define w2 where "w2 = w\<lparr>trace := trace w @ [Print a1, Print a2]\<rparr>"
  define w3 where "w3 = w\<lparr>trace := trace w @ [Print a1, Print a2,
                  Print (arrow_right @ '' '' @ cmd), SendAll (cmd @ CRLF), Sleep 300,
                  Recv 8192, Print (arrow_left @ '' '' @ r)],
                pending := drop 8192 (pending w @ d), arrivals := rest\<rparr>"
  have s: "send_command_full cmd w2 = (Inr r, w3)"
    using send_command_full_ok [of w2 d rest cmd] a r u
    by (simp add: w2_def w3_def del: take_append drop_append)
  have t3: "trace w3 = trace w @ [Print a1, Print a2,
                  Print (arrow_right @ '' '' @ cmd), SendAll (cmd @ CRLF), Sleep 300,
                  Recv 8192, Print (arrow_left @ '' '' @ r)]"
    by (simp add: w3_def)
  from g obtain evs where e: "trace (snd (nxt w3)) = trace w3 @ evs" and ap: "appended nxt w3 = evs"
    by (rule grows_obtain)
  have run: "io_then (print_line a1) (io_then (print_line a2)
       (io_bind (send_command_full cmd) (\<lambda>response.
          if \<not> py_in ''OK'' response then print_line f else nxt))) w
       = (if py_in ''OK'' r then nxt w3 else (Inr (), w3\<lparr>trace := trace w3 @ [Print f]\<rparr>))"
    using s by (simp add: io_then_apply io_bind_apply print_line_apply w2_def [symmetric])
  have "trace (snd (io_then (print_line a1) (io_then (print_line a2)
       (io_bind (send_command_full cmd) (\<lambda>response.
          if \<not> py_in ''OK'' response then print_line f else nxt))) w))
       = trace w @ ([Print a1, Print a2,
                  Print (arrow_right @ '' '' @ cmd), SendAll (cmd @ CRLF), Sleep 300,
                  Recv 8192, Print (arrow_left @ '' '' @ r)]
          @ (if py_in ''OK'' r then evs else [Print f]))"
    unfolding run using e t3 by simp
  then have "appended (io_then (print_line a1) (io_then (print_line a2)
       (io_bind (send_command_full cmd) (\<lambda>response.
          if \<not> py_in ''OK'' response then print_line f else nxt)))) w
       = [Print a1, Print a2,
                  Print (arrow_right @ '' '' @ cmd), SendAll (cmd @ CRLF), Sleep 300,
                  Recv 8192, Print (arrow_left @ '' '' @ r)]
          @ (if py_in ''OK'' r then evs else [Print f])"
    by (rule appended_trace)
  then show ?thesis using ap by (simp add: w3_def)
qed

lemma grows_flow_after_fetch: "grows flow_after_fetch"
  unfolding flow_after_fetch_def by (intro grows_rules grows_send_command_full)

lemma grows_flow_after_select: "grows flow_after_select"
  unfolding flow_after_select_def
  by (intro grows_rules grows_send_command_full grows_flow_after_fetch)

lemma grows_flow_after_login: "grows flow_after_login"
  unfolding flow_after_login_def
  by (intro grows_rules grows_send_command_full grows_flow_after_select)

lemma starts_flow_after_fetch:
  "\<exists>evs. appended flow_after_fetch w = Print (check_mark @ '' FETCH successful!'' @ [LF]) # evs"
  unfolding flow_after_fetch_def
  by (rule first_print) (intro grows_rules grows_send_command_full)

lemma starts_flow_after_select:
  "\<exists>evs. appended flow_after_select w = Print (check_mark @ '' SELECT successful!'' @ [LF]) # evs"
  unfolding flow_after_select_def
  by (rule first_print) (intro grows_rules grows_send_command_full grows_flow_after_fetch)

lemma starts_flow_after_login:
  "\<exists>evs. appended flow_after_login w = Print (check_mark @ '' LOGIN successful!'' @ [LF]) # evs"
  unfolding flow_after_login_def
  by (rule first_print) (intro grows_rules grows_send_command_full grows_flow_after_select)

lemmas mark_defs = arrow_left_def arrow_right_def check_mark_def cross_mark_def party_def
  warning_sign_def LF_def

lemma select_step:
  assumes "arrivals w = Data d # rest" and "r = take 8192 (pending w @ d)"
    and "utf8_ok (map of_char r)"
  shows "Print (check_mark @ '' SELECT successful!'' @ [LF]) \<in> set (appended flow_after_login w)
         \<longleftrightarrow> py_in ''OK'' r"
proof (cases "py_in ''OK'' r")
  case True
  obtain evs where "appended flow_after_select (w\<lparr>trace := trace w @
        [Print (check_mark @ '' LOGIN successful!'' @ [LF]), Print ''2. SELECT INBOX'',
         Print (arrow_right @ '' '' @ ''A002 SELECT INBOX''), SendAll (''A002 SELECT INBOX'' @ CRLF),
         Sleep 300, Recv 8192, Print (arrow_left @ '' '' @ r)],
        pending := drop 8192 (pending w @ d), arrivals := rest\<rparr>)
      = Print (check_mark @ '' SELECT successful!'' @ [LF]) # evs"
    using starts_flow_after_select by blast
  then show ?thesis
    using True checked_step [OF assms grows_flow_after_select]
    unfolding flow_after_login_def by simp
next
  case False
  then show ?thesis
    using checked_step [OF assms grows_flow_after_select]
    unfolding flow_after_login_def by (simp add: mark_defs)
qed

lemma fetch_step:
  assumes "arrivals w = Data d # rest" and "r = take 8192 (pending w @ d)"
    and "utf8_ok (map of_char r)"
  shows "Print (check_mark @ '' FETCH successful!'' @ [LF]) \<in> set (appended flow_after_select w)
         \<longleftrightarrow> py_in ''OK'' r"
proof (cases "py_in ''OK'' r")
  case True
  obtain evs where "appended flow_after_fetch (w\<lparr>trace := trace w @
        [Print (check_mark @ '' SELECT successful!'' @ [LF]), Print ''3. FETCH 1:* (BODY[])'',
         Print (arrow_right @ '' '' @ ''A003 FETCH 1:* BODY[]''),
         SendAll (''A003 FETCH 1:* BODY[]'' @ CRLF),
         Sleep 300, Recv 8192, Print (arrow_left @ '' '' @ r)],
        pending := drop 8192 (pending w @ d), arrivals := rest\<rparr>)
      = Print (check_mark @ '' FETCH successful!'' @ [LF]) # evs"
    using starts_flow_after_fetch by blast
  then show ?thesis
    using True checked_step [OF assms grows_flow_after_fetch]
    unfolding flow_after_select_def by simp
next
  case False
  then show ?thesis
    using checked_step [OF assms grows_flow_after_fetch]
    unfolding flow_after_select_def by (simp add: mark_defs)
qed

lemma unchecked_step:
  assumes a: "arrivals w = Data d # rest" and r: "r = take 8192 (pending w @ d)"
    and u: "utf8_ok (map of_char r)" and g: "grows nxt"
  shows "appended
     (io_then (print_line a1) (io_then (print_line a2)
       (io_bind (send_command_full cmd) (\<lambda>response. nxt)))) w
     = [Print a1, Print a2, Print (arrow_right @ '' '' @ cmd), SendAll (cmd @ CRLF), Sleep 300,
        Recv 8192, Print (arrow_left @ '' '' @ r)]
       @ appended nxt (w\<lparr>trace := trace w @ [Print a1, Print a2,
                  Print (arrow_right @ '' '' @ cmd), SendAll (cmd @ CRLF), Sleep 300,
                  Recv 8192, Print (arrow_left @ '' '' @ r)],
                pending := drop 8192 (pending w @ d), arrivals := rest\<rparr>)"
proof -
  define w2 where "w2 = w\<lparr>trace := trace w @ [Print a1, Print a2]\<rparr>"
  define w3 where "w3 = w\<lparr>trace := trace w @ [Print a1, Print a2,
                  Print (arrow_right @ '' '' @ cmd), SendAll (cmd @ CRLF), Sleep 300,
                  Recv 8192, Print (arrow_left @ '' '' @ r)],
                pending := drop 8192 (pending w @ d), arrivals := rest\<rparr>"
  have s: "send_command_full cmd w2 = (Inr r, w3)"
    using send_command_full_ok [of w2 d rest cmd] a r u
    by (simp add: w2_def w3_def del: take_append drop_append)
  have t3: "trace w3 = trace w @ [Print a1, Print a2,
                  Print (arrow_right @ '' '' @ cmd), SendAll (cmd @ CRLF), Sleep 300,
                  Recv 8192, Print (arrow_left @ '' '' @ r)]"
    by (simp add: w3_def)
  from g obtain evs where e: "trace (snd (nxt w3)) = trace w3 @ evs" and ap: "appended nxt w3 = evs"
    by (rule grows_obtain)
  have run: "io_then (print_line a1) (io_then (print_line a2)
       (io_bind (send_command_full cmd) (\<lambda>response. nxt))) w = nxt w3"
    using s by (simp add: io_then_apply io_bind_apply print_line_apply w2_def [symmetric])
  have "trace (snd (io_then (print_line a1) (io_then (print_line a2)
       (io_bind (send_command_full cmd) (\<lambda>response. nxt))) w))
       = trace w @ ([Print a1, Print a2,
                  Print (arrow_right @ '' '' @ cmd), SendAll (cmd @ CRLF), Sleep 300,
                  Recv 8192, Print (arrow_left @ '' '' @ r)] @ evs)"
    unfolding run using e t3 by simp
  then have "appended (io_then (print_line a1) (io_then (print_line a2)
       (io_bind (send_command_full cmd) (\<lambda>response. nxt)))) w
       = [Print a1, Print a2,
                  Print (arrow_right @ '' '' @ cmd), SendAll (cmd @ CRLF), Sleep 300,
                  Recv 8192, Print (arrow_left @ '' '' @ r)] @ evs"
    by (rule appended_trace)
  then show ?thesis using ap by (simp add: w3_def)
qed

lemma list_step:
  assumes "arrivals w = Data d # rest" and "r = take 8192 (pending w @ d)"
    and "utf8_ok (map of_char r)"
  shows "Print (check_mark @ '' LIST successful!'' @ [LF]) \<in> set (appended flow_after_fetch w)"
proof -
  have g: "grows (io_then (print_line ''5. LOGOUT'')
      (io_bind (send_command_full ''A005 LOGOUT'') (\<lambda>_.
       io_then sock_close (print_line (LF # ''=== All tests passed! '' @ party @ '' ==='')))))"
    by (intro grows_rules grows_send_command_full)
  have g2: "grows (io_then (print_line (check_mark @ '' LIST successful!'' @ [LF]))
      (io_then (print_line ''5. LOGOUT'')
      (io_bind (send_command_full ''A005 LOGOUT'') (\<lambda>_.
       io_then sock_close (print_line (LF # ''=== All tests passed! '' @ party @ '' ===''))))))"
    by (intro grows_rules grows_send_command_full)
  obtain evs where e: "appended (io_then (print_line (check_mark @ '' LIST successful!'' @ [LF]))
      (io_then (print_line ''5. LOGOUT'')
      (io_bind (send_command_full ''A005 LOGOUT'') (\<lambda>_.
       io_then sock_close (print_line (LF # ''=== All tests passed! '' @ party @ '' ===''))))))
      (w\<lparr>trace := trace w @ [Print (check_mark @ '' FETCH successful!'' @ [LF]),
                  Print (''4. LIST '' @ DQ @ DQ @ '' '' @ DQ @ ''*'' @ DQ),
                  Print (arrow_right @ '' '' @ ''A004 LIST '' @ DQ @ DQ @ '' '' @ DQ @ ''*'' @ DQ),
                  SendAll ((''A004 LIST '' @ DQ @ DQ @ '' '' @ DQ @ ''*'' @ DQ) @ CRLF), Sleep 300,
                  Recv 8192, Print (arrow_left @ '' '' @ r)],
                pending := drop 8192 (pending w @ d), arrivals := rest\<rparr>)
      = Print (check_mark @ '' LIST successful!'' @ [LF]) # evs"
    using first_print [OF g] by blast
  show ?thesis
    unfolding flow_after_fetch_def unchecked_step [OF assms g2] e
    by (simp del: append.simps)
qed

lemma login_step:
  assumes ug: "utf8_ok (map of_char (take 4096 g))"
    and r: "r = take 8192 (drop 4096 g @ d)" and u: "utf8_ok (map of_char r)"
  shows "Print (check_mark @ '' LOGIN successful!'' @ [LF])
           \<in> set (trace (snd (test_complete_flow (start True (Data g # Data d # rest)))))
         \<longleftrightarrow> py_in ''OK'' r"
proof -
  define w1 where "w1 = (start True (Data g # Data d # rest))
      \<lparr>trace := [Print (''=== Testing Complete IMAP Flow ==='' @ [LF]),
                 Connect ''localhost'' 1993, Recv 4096],
       pending := drop 4096 g, arrivals := Data d # rest\<rparr>"
  define step where "step =
     io_then (print_line (arrow_left @ '' '' @ take 4096 g))
    (io_then (print_line (LF # ''1. LOGIN with valid credentials''))
    (io_bind (send_command_full ''A001 LOGIN test@example.com password123'') (\<lambda>response.
     if \<not> py_in ''OK'' response then print_line (cross_mark @ '' LOGIN failed!'')
     else flow_after_login)))"
  have run: "test_complete_flow (start True (Data g # Data d # rest)) = step w1"
    using ug
    by (simp add: test_complete_flow_def step_def w1_def start_def io_then_apply io_bind_apply
        print_line_apply sock_connect_def emit_def sock_recv_def decode_def io_return_apply Let_def)
  have a: "arrivals w1 = Data d # rest" and p: "r = take 8192 (pending w1 @ d)"
    using r by (simp_all add: w1_def)
  have t1: "trace w1 = [Print (''=== Testing Complete IMAP Flow ==='' @ [LF]),
                 Connect ''localhost'' 1993, Recv 4096]"
    by (simp add: w1_def)
  have gs: "grows step"
    unfolding step_def by (intro grows_rules grows_send_command_full grows_flow_after_login)
  have tr: "trace (snd (step w1)) = trace w1 @ appended step w1"
    using gs by (rule grows_appended)
  have m: "Print (check_mark @ '' LOGIN successful!'' @ [LF]) \<in> set (appended step w1)
         \<longleftrightarrow> py_in ''OK'' r"
  proof (cases "py_in ''OK'' r")
    case True
    obtain evs where "appended flow_after_login (w1\<lparr>trace := trace w1 @
        [Print (arrow_left @ '' '' @ take 4096 g), Print (LF # ''1. LOGIN with valid credentials''),
         Print (arrow_right @ '' '' @ ''A001 LOGIN test@example.com password123''),
         SendAll (''A001 LOGIN test@example.com password123'' @ CRLF),
         Sleep 300, Recv 8192, Print (arrow_left @ '' '' @ r)],
        pending := drop 8192 (pending w1 @ d), arrivals := rest\<rparr>)
      = Print (check_mark @ '' LOGIN successful!'' @ [LF]) # evs"
      using starts_flow_after_login by blast
    then show ?thesis
      using True checked_step [OF a p u grows_flow_after_login]
      unfolding step_def by simp
  next
    case False
    then show ?thesis
      using checked_step [OF a p u grows_flow_after_login]
      unfolding step_def by (simp add: mark_defs)
  qed
  show ?thesis
    unfolding run tr t1 using m by (simp add: mark_defs)
qed

lemma hd_split_on_prefix: "prefix (hd (split_on c s)) s"
proof (induction s)
  case Nil
  show ?case by simp
next
  case (Cons a s)
  show ?case
  proof (cases "a = c")
    case True
    then show ?thesis by simp
  next
    case False
    then show ?thesis using Cons.IH by (simp del: split_on.simps add: split_on_Cons_other)
  qed
qed

lemma split_on_sublist: "l \<in> set (split_on c s) \<Longrightarrow> sublist l s"
proof (induction s arbitrary: l)
  case Nil
  then show ?case by simp
next
  case (Cons a s)
  show ?case
  proof (cases "a = c")
    case True
    with Cons.prems have "l = [] \<or> l \<in> set (split_on c s)" by simp
    then show ?thesis using Cons.IH by (auto simp: sublist_Cons_right)
  next
    case False
    with Cons.prems have "l = a # hd (split_on c s) \<or> l \<in> set (tl (split_on c s))"
      by (simp del: split_on.simps add: split_on_Cons_other)
    then show ?thesis
    proof
      assume l: "l = a # hd (split_on c s)"
      then show ?thesis using hd_split_on_prefix [of c s] by (simp add: sublist_Cons_right)
    next
      assume "l \<in> set (tl (split_on c s))"
      then have "l \<in> set (split_on c s)"
        using split_on_nonempty [of c s] by (cases "split_on c s") auto
      then show ?thesis using Cons.IH by (auto simp: sublist_Cons_right)
    qed
  qed
qed

lemma statusOk_spec_sublist: "statusOk_spec tag r \<Longrightarrow> sublist ''OK'' r"
proof -
  assume "statusOk_spec tag r"
  then obtain l where l: "l \<in> set (split_on LF r)" and p: "prefix (tag @ '' OK'') l"
    by (auto simp: statusOk_spec_def list_ex_iff)
  from p have "sublist (tag @ '' OK'') l" by (rule prefix_imp_sublist)
  moreover have "sublist ''OK'' (tag @ '' OK'')"
    using sublist_appendI [of "''OK''" "tag @ '' ''" "[]"] by simp
  ultimately have "sublist ''OK'' l" by (rule sublist_order.order_trans [rotated])
  then show ?thesis using split_on_sublist [OF l] by (rule sublist_order.order_trans)
qed


text \<open>
  C3, as amended. In \<open>test_complete_flow\<close> the success of \<open>LOGIN\<close>, \<open>SELECT\<close> and \<open>FETCH\<close> is
  \<open>"OK" in response\<close>: with \<open>r\<close> the text read for the command (one read of at most 8192
  bytes), the line announcing the success is printed exactly when the two characters
  \<open>OK\<close> occur somewhere in \<open>r\<close>. The tag and the line are not looked at. The response to
  \<open>LIST\<close> is not tested: its success is announced whatever was read. \<open>OK\<close> on the completion
  line of the tag is therefore enough for success, and not needed.
\<close>

theorem status_is_substring_test:
  assumes "arrivals w = Data d # rest" and "r = take 8192 (pending w @ d)"
    and "utf8_ok (map of_char r)"
  shows "(Print (check_mark @ '' SELECT successful!'' @ [LF]) \<in> set (appended flow_after_login w)
            \<longleftrightarrow> py_in ''OK'' r)
       \<and> (Print (check_mark @ '' FETCH successful!'' @ [LF]) \<in> set (appended flow_after_select w)
            \<longleftrightarrow> py_in ''OK'' r)
       \<and> Print (check_mark @ '' LIST successful!'' @ [LF]) \<in> set (appended flow_after_fetch w)
       \<and> (pending w = [] \<and> length g \<le> 4096 \<and> utf8_ok (map of_char g) \<longrightarrow>
            (Print (check_mark @ '' LOGIN successful!'' @ [LF])
               \<in> set (trace (snd (test_complete_flow (start True (Data g # arrivals w)))))
             \<longleftrightarrow> py_in ''OK'' r))
       \<and> (statusOk_spec tag r \<longrightarrow> py_in ''OK'' r)"
proof -
  have "Print (check_mark @ '' LOGIN successful!'' @ [LF])
               \<in> set (trace (snd (test_complete_flow (start True (Data g # arrivals w)))))
             \<longleftrightarrow> py_in ''OK'' r"
    if "pending w = [] \<and> length g \<le> 4096 \<and> utf8_ok (map of_char g)"
    using that assms login_step [of g r d rest] by simp
  moreover have "py_in ''OK'' r" if "statusOk_spec tag r"
    using that statusOk_spec_sublist [of tag r] by (simp add: py_in_sublist)
  ultimately show ?thesis
    using select_step [OF assms] fetch_step [OF assms] list_step [OF assms] by blast
qed

theorem status_is_substring_test_witness:
  "arrivals (start True [Data fetch_completed]) = [Data fetch_completed]
   \<and> utf8_ok (map of_char fetch_completed)
   \<and> length imap_greeting \<le> 4096 \<and> utf8_ok (map of_char imap_greeting)
   \<and> statusOk_spec ''A003'' fetch_completed
   \<and> py_in ''OK'' fetch_completed
   \<and> Print (check_mark @ '' FETCH successful!'' @ [LF])
        \<in> set (appended flow_after_select (start True [Data fetch_completed]))
   \<and> Print (check_mark @ '' LIST successful!'' @ [LF])
        \<in> set (appended flow_after_fetch (start True [Data fetch_completed]))
   \<and> Print (check_mark @ '' LOGIN successful!'' @ [LF])
        \<in> set (trace (snd (test_complete_flow
                              (start True [Data imap_greeting, Data fetch_completed]))))"
  using status_is_substring_test [of "start True [Data fetch_completed]" fetch_completed "[]"
      fetch_completed imap_greeting "''A003''"]
  by (simp add: start_def fetch_completed_def imap_greeting_def CRLF_def LF_def
      statusOk_spec_def)

text \<open>
  C3 as stated fails. The server refuses the \<open>FETCH\<close> with \<open>A003 NO\<close> after sending a
  message whose subject is \<open>OK\<close>: no line of the response begins with \<open>A003 OK\<close>, and
  the script announces the success of the \<open>FETCH\<close> and goes on to \<open>LIST\<close>.
\<close>

theorem status_counterexample:
  "(case test_complete_flow (start True ok_in_body) of
      (r, w) \<Rightarrow>
        Print (arrow_left @ '' '' @ fetch_failed) \<in> set (trace w)
        \<and> Print (check_mark @ '' FETCH successful!'' @ [LF]) \<in> set (trace w)
        \<and> (''A004 LIST '' @ DQ @ DQ @ '' '' @ DQ @ ''*'' @ DQ @ CRLF) \<in> set (sent_of (trace w)))
   \<and> \<not> statusOk_spec ''A003'' fetch_failed
   \<and> py_in ''OK'' fetch_failed"
proof -
  have "case test_complete_flow (start True ok_in_body) of
      (r, w) \<Rightarrow>
        Print (arrow_left @ '' '' @ fetch_failed) \<in> set (trace w)
        \<and> Print (check_mark @ '' FETCH successful!'' @ [LF]) \<in> set (trace w)
        \<and> (''A004 LIST '' @ DQ @ DQ @ '' '' @ DQ @ ''*'' @ DQ @ CRLF) \<in> set (sent_of (trace w))"
    by (simp add: test_complete_flow_def flow_after_login_def flow_after_select_def
        flow_after_fetch_def send_command_full_def ok_in_body_def fetch_failed_def run_defs)
  moreover have "\<not> statusOk_spec ''A003'' fetch_failed"
    by (simp add: statusOk_spec_def fetch_failed_def CRLF_def LF_def)
  moreover have "py_in ''OK'' fetch_failed"
    by (simp add: fetch_failed_def CRLF_def LF_def)
  ultimately show ?thesis by blast
qed

subsection \<open>What send-smtp-raw.py sends and what test-imap-e2e.py tests\<close>

lemma emits_send_command_smtp:
  "sends_only obs \<Longrightarrow> emits obs (send_command_smtp cmd) [obs [SendAll (cmd @ CRLF)]]"
  unfolding send_command_smtp_def by (rule emits_send_command_shape)

lemma returns_send_command_smtp: "returns (send_command_smtp cmd)"
  unfolding send_command_smtp_def by (rule returns_send_command_shape)

lemma sent_send_email:
  "emits sent_of (send_email timestamp date) [smtp_lines timestamp date]"
proof -
  note so = sends_only_sent
  note a = sends_only_additive [OF so]
  note s = emits_send_command_smtp [OF so]
  note p = emits_print [OF so]
  note rd = emits_recv_decode [OF so]
  note q = emits_bind [OF a s emits_then [OF a emits_close [OF so] p]]
  note r = emits_bind [OF a rd emits_then [OF a p q]]
  note b = emits_then [OF a p emits_then [OF a emits_sendall emits_then [OF a
      emits_sleep [OF so] r]]]
  note e4 = emits_bind [OF a s b]
  note e3 = emits_bind [OF a s e4]
  note e2 = emits_bind [OF a s e3]
  note e1 = emits_bind [OF a s e2]
  note e0 = emits_then [OF a p emits_then [OF a emits_connect [OF so]
      emits_bind [OF a rd emits_then [OF a p e1]]]]
  show ?thesis
    unfolding send_email_def
    by (rule emits_mono [OF e0]) (simp add: seqs_def smtp_lines_def)
qed

lemma returns_send_email: "returns (send_email timestamp date)"
  unfolding send_email_def
  by (intro returns_then returns_bind returns_print returns_connect returns_close
      returns_sendall returns_sleep returns_recv_decode returns_send_command_smtp)

lemma subject_in_email_content:
  "py_in (''Subject: '' @ subject timestamp @ [LF]) (email_content timestamp date)"
proof -
  have "email_content timestamp date
        = unlines [''From: sender@example.com'', ''To: test@example.com'']
          @ (''Subject: '' @ subject timestamp @ [LF])
          @ unlines
             [''Date: '' @ date,
              [],
              ''Hello!'',
              [],
              ''This is an end-to-end test email sent via raw SMTP.'',
              [],
              ''If you can read this in the web-ui via the AI assistant, it means:'',
              check_mark @ '' SMTP reception works'',
              check_mark @ '' Maildir storage works'',
              check_mark @ '' IMAP reading works'',
              check_mark @ '' MCP integration works'',
              check_mark @ '' AI runtime works'',
              check_mark @ '' Web-UI works'',
              [],
              ''Congratulations! The full stack is working! '' @ party,
              [],
              ''Best regards,'',
              ''The GK Mail Test Suite'',
              ''.'']"
    by (simp add: email_content_def unlines_def subject_def)
  then show ?thesis
    unfolding py_in_sublist by (metis sublist_appendI)
qed

lemma marker_in_email_content: "py_in marker (email_content timestamp date)"
proof -
  have "email_content timestamp date
        = (unlines
             [''From: sender@example.com'',
              ''To: test@example.com'',
              ''Subject: E2E Test Email - '' @ timestamp,
              ''Date: '' @ date,
              [],
              ''Hello!'',
              [],
              ''This is an end-to-end test email sent via raw SMTP.'',
              [],
              ''If you can read this in the web-ui via the AI assistant, it means:'',
              check_mark @ '' SMTP reception works'',
              check_mark @ '' Maildir storage works'',
              check_mark @ '' IMAP reading works'',
              check_mark @ '' MCP integration works'',
              check_mark @ '' AI runtime works'',
              check_mark @ '' Web-UI works'',
              []] @ ''Congratulations! The '')
          @ marker
          @ (''! '' @ party @ [LF]
              @ unlines [[], ''Best regards,'', ''The GK Mail Test Suite'', ''.''])"
    by (simp add: email_content_def unlines_def marker_def)
  then show ?thesis
    unfolding py_in_sublist by (metis sublist_appendI)
qed

lemma subject_has_prefix: "py_in (subject timestamp) r \<Longrightarrow> py_in ''E2E Test Email'' r"
proof -
  assume "py_in (subject timestamp) r"
  then have "sublist (subject timestamp) r" by (simp add: py_in_sublist)
  moreover have "sublist ''E2E Test Email'' (subject timestamp)"
    using sublist_appendI [of "''E2E Test Email''" "[]" "'' - '' @ timestamp"]
    by (simp add: subject_def)
  ultimately have "sublist ''E2E Test Email'' r" by (rule sublist_order.order_trans [rotated])
  then show ?thesis by (simp add: py_in_sublist)
qed

lemma io_bind_return: "io_bind (io_return x) k = k x"
  by (rule ext) (simp add: io_bind_def io_return_def)

lemma send_command_e2e_ok:
  assumes "arrivals w = Data d # rest" and "utf8_ok (map of_char (take 8192 (pending w @ d)))"
  shows "send_command_e2e cmd w =
     (Inr (take 8192 (pending w @ d)),
      w\<lparr>trace := trace w @ [Print (arrow_right @ '' '' @ cmd), SendAll (cmd @ CRLF), Sleep 300,
            Recv 8192, Print (arrow_left @ '' '' @ take 8192 (pending w @ d))],
        pending := drop 8192 (pending w @ d), arrivals := rest\<rparr>)"
  using assms by (simp add: send_command_e2e_def io_defs Let_def del: take_append drop_append)

lemma e2e_step:
  assumes a: "arrivals w = Data d # rest" and r: "r = take 8192 (pending w @ d)"
    and u: "utf8_ok (map of_char r)"
  shows "io_then (print_line a1) (io_then (print_line a2) (io_bind (send_command_e2e cmd) k)) w
       = k r (w\<lparr>trace := trace w @ [Print a1, Print a2,
                  Print (arrow_right @ '' '' @ cmd), SendAll (cmd @ CRLF), Sleep 300,
                  Recv 8192, Print (arrow_left @ '' '' @ r)],
                pending := drop 8192 (pending w @ d), arrivals := rest\<rparr>)"
proof -
  define w2 where "w2 = w\<lparr>trace := trace w @ [Print a1, Print a2]\<rparr>"
  have s: "send_command_e2e cmd w2 = (Inr r, w\<lparr>trace := trace w @ [Print a1, Print a2,
                  Print (arrow_right @ '' '' @ cmd), SendAll (cmd @ CRLF), Sleep 300,
                  Recv 8192, Print (arrow_left @ '' '' @ r)],
                pending := drop 8192 (pending w @ d), arrivals := rest\<rparr>)"
    using send_command_e2e_ok [of w2 d rest cmd] a r u
    by (simp add: w2_def del: take_append drop_append)
  show ?thesis
    using s by (simp add: io_then_apply io_bind_apply print_line_apply w2_def [symmetric])
qed

lemma fetch_latest_run:
  assumes a: "arrivals w = Data d # rest" and r: "r = take 8192 (pending w @ d)"
    and u: "utf8_ok (map of_char r)" and l: "length ds \<le> 4300"
  shows "fst (fetch_latest ds w) = Inr ()"
    and "appended (fetch_latest ds) w =
       [Print (LF # check_mark @ '' Found '' @ py_str (int (py_int ds)) @ '' emails in INBOX''),
        Print (LF # ''3. Fetching email #'' @ py_str (int (py_int ds)) @ '' (latest)...''),
        Print (arrow_right @ '' '' @ ''A003 FETCH '' @ py_str (int (py_int ds)) @ '' BODY[]''),
        SendAll ((''A003 FETCH '' @ py_str (int (py_int ds)) @ '' BODY[]'') @ CRLF),
        Sleep 300, Recv 8192, Print (arrow_left @ '' '' @ r)]
       @ (if py_in ''E2E Test Email'' r
          then [Print (LF # party @ '' SUCCESS! The E2E test email is readable via IMAP!''),
                Print (LF # ''Email content preview:''),
                Print (replicate 50 CHR ''='')]
               @ (if py_in ''full stack is working'' r
                  then [Print (check_mark @ '' E2E test message confirmed!'')] else [])
          else [Print (LF # warning_sign @ ''  Could not find E2E test email'')])"
proof -
  have run: "fetch_latest ds w =
     (Inr (), w\<lparr>trace := trace w @
       [Print (LF # check_mark @ '' Found '' @ py_str (int (py_int ds)) @ '' emails in INBOX''),
        Print (LF # ''3. Fetching email #'' @ py_str (int (py_int ds)) @ '' (latest)...''),
        Print (arrow_right @ '' '' @ ''A003 FETCH '' @ py_str (int (py_int ds)) @ '' BODY[]''),
        SendAll ((''A003 FETCH '' @ py_str (int (py_int ds)) @ '' BODY[]'') @ CRLF),
        Sleep 300, Recv 8192, Print (arrow_left @ '' '' @ r)]
       @ (if py_in ''E2E Test Email'' r
          then [Print (LF # party @ '' SUCCESS! The E2E test email is readable via IMAP!''),
                Print (LF # ''Email content preview:''),
                Print (replicate 50 CHR ''='')]
               @ (if py_in ''full stack is working'' r
                  then [Print (check_mark @ '' E2E test message confirmed!'')] else [])
          else [Print (LF # warning_sign @ ''  Could not find E2E test email'')]),
        pending := drop 8192 (pending w @ d), arrivals := rest\<rparr>)"
    unfolding fetch_latest_def int_of_group_def
    using l
    by (simp add: io_bind_return e2e_step [OF a r u])
      (simp add: io_then_apply print_line_apply io_return_apply)
  show "fst (fetch_latest ds w) = Inr ()" by (simp add: run)
  show "appended (fetch_latest ds) w =
       [Print (LF # check_mark @ '' Found '' @ py_str (int (py_int ds)) @ '' emails in INBOX''),
        Print (LF # ''3. Fetching email #'' @ py_str (int (py_int ds)) @ '' (latest)...''),
        Print (arrow_right @ '' '' @ ''A003 FETCH '' @ py_str (int (py_int ds)) @ '' BODY[]''),
        SendAll ((''A003 FETCH '' @ py_str (int (py_int ds)) @ '' BODY[]'') @ CRLF),
        Sleep 300, Recv 8192, Print (arrow_left @ '' '' @ r)]
       @ (if py_in ''E2E Test Email'' r
          then [Print (LF # party @ '' SUCCESS! The E2E test email is readable via IMAP!''),
                Print (LF # ''Email content preview:''),
                Print (replicate 50 CHR ''='')]
               @ (if py_in ''full stack is working'' r
                  then [Print (check_mark @ '' E2E test message confirmed!'')] else [])
          else [Print (LF # warning_sign @ ''  Could not find E2E test email'')])"
    by (rule appended_trace) (simp add: run)
qed


lemmas line_defs = LF_def arrow_left_def arrow_right_def check_mark_def party_def
  warning_sign_def Cons_replicate_eq

text \<open>
  C1, as amended. \<open>send_email\<close> writes the four commands, the message and \<open>QUIT\<close>, in
  this order and nothing else (all of them when the server can be reached and answers
  in ASCII); the message has the line \<open>Subject: E2E Test Email - timestamp\<close> and the
  marker. \<open>test_imap_read\<close> knows nothing of the timestamp. With \<open>r\<close> the text read for
  the \<open>FETCH\<close> (one read of at most 8192 bytes), it announces success exactly when \<open>r\<close>
  contains \<open>E2E Test Email\<close>, the beginning that all these subjects share; it confirms
  the message exactly when \<open>r\<close> contains the marker as well; it prints a warning exactly
  when \<open>r\<close> does not contain \<open>E2E Test Email\<close>; and it goes on to \<open>LOGOUT\<close> in every
  case, no exception is raised. So a response that has the submitted subject and the
  marker is announced and confirmed, and so are others.
\<close>

theorem round_trip_check:
  assumes a: "arrivals w = Data d # rest" and r: "r = take 8192 (pending w @ d)"
    and u: "utf8_ok (map of_char r)" and l: "length ds \<le> 4300"
  shows "prefix (sent_of (trace (snd (send_email timestamp date (start up arrs)))))
           (smtp_lines timestamp date)
       \<and> (clean (start up arrs) \<longrightarrow>
            sent_of (trace (snd (send_email timestamp date (start up arrs))))
              = smtp_lines timestamp date)
       \<and> py_in (''Subject: '' @ subject timestamp @ [LF]) (email_content timestamp date)
       \<and> py_in marker (email_content timestamp date)
       \<and> fst (fetch_latest ds w) = Inr ()
       \<and> (Print (LF # party @ '' SUCCESS! The E2E test email is readable via IMAP!'')
              \<in> set (appended (fetch_latest ds) w)
            \<longleftrightarrow> py_in ''E2E Test Email'' r)
       \<and> (Print (check_mark @ '' E2E test message confirmed!'')
              \<in> set (appended (fetch_latest ds) w)
            \<longleftrightarrow> py_in ''E2E Test Email'' r \<and> py_in marker r)
       \<and> (Print (LF # warning_sign @ ''  Could not find E2E test email'')
              \<in> set (appended (fetch_latest ds) w)
            \<longleftrightarrow> \<not> py_in ''E2E Test Email'' r)
       \<and> (asserted_spec timestamp r \<longrightarrow>
            Print (LF # party @ '' SUCCESS! The E2E test email is readable via IMAP!'')
              \<in> set (appended (fetch_latest ds) w)
            \<and> Print (check_mark @ '' E2E test message confirmed!'')
              \<in> set (appended (fetch_latest ds) w))"
proof -
  from emits_start [OF sent_send_email additive_sent, of timestamp date up arrs]
  have p: "prefix (sent_of (trace (snd (send_email timestamp date (start up arrs)))))
             (smtp_lines timestamp date)"
    and e: "\<And>x. fst (send_email timestamp date (start up arrs)) = Inr x
              \<Longrightarrow> sent_of (trace (snd (send_email timestamp date (start up arrs))))
                    = smtp_lines timestamp date"
    by simp_all
  have c: "sent_of (trace (snd (send_email timestamp date (start up arrs))))
             = smtp_lines timestamp date" if "clean (start up arrs)"
  proof -
    from returns_send_email that
    obtain x where "fst (send_email timestamp date (start up arrs)) = Inr x"
      unfolding returns_def by blast
    then show ?thesis by (rule e)
  qed
  note run = fetch_latest_run [OF a r u l]
  have s: "Print (LF # party @ '' SUCCESS! The E2E test email is readable via IMAP!'')
              \<in> set (appended (fetch_latest ds) w)
            \<longleftrightarrow> py_in ''E2E Test Email'' r"
    unfolding run(2) by (simp add: line_defs)
  have k: "Print (check_mark @ '' E2E test message confirmed!'')
              \<in> set (appended (fetch_latest ds) w)
            \<longleftrightarrow> py_in ''E2E Test Email'' r \<and> py_in marker r"
    unfolding run(2) by (simp add: line_defs marker_def)
  have n: "Print (LF # warning_sign @ ''  Could not find E2E test email'')
              \<in> set (appended (fetch_latest ds) w)
            \<longleftrightarrow> \<not> py_in ''E2E Test Email'' r"
    unfolding run(2) by (simp add: line_defs)
  have t: "py_in ''E2E Test Email'' r \<and> py_in marker r" if "asserted_spec timestamp r"
    using that subject_has_prefix [of timestamp r] by (simp add: asserted_spec_def)
  from p c subject_in_email_content [of timestamp date] marker_in_email_content [of timestamp date]
    run(1) s k n t
  show ?thesis by blast
qed

theorem round_trip_check_witness:
  "arrivals (start True [Data fresh_reply]) = [Data fresh_reply]
   \<and> utf8_ok (map of_char fresh_reply)
   \<and> clean (start True smtp_accepting)
   \<and> asserted_spec ''2024-05-01 10:00:00'' fresh_reply
   \<and> sent_of (trace (snd (send_email ''2024-05-01 10:00:00'' ''Wed, 01 May 2024 10:00:00 +0000''
                             (start True smtp_accepting))))
       = smtp_lines ''2024-05-01 10:00:00'' ''Wed, 01 May 2024 10:00:00 +0000''
   \<and> Print (LF # party @ '' SUCCESS! The E2E test email is readable via IMAP!'')
        \<in> set (appended (fetch_latest [1]) (start True [Data fresh_reply]))
   \<and> Print (check_mark @ '' E2E test message confirmed!'')
        \<in> set (appended (fetch_latest [1]) (start True [Data fresh_reply]))"
proof -
  have c: "clean (start True smtp_accepting)"
    by (simp add: clean_def ascii_def start_def smtp_accepting_def CRLF_def)
  have a: "arrivals (start True [Data fresh_reply]) = [Data fresh_reply]"
    and p: "fresh_reply = take 8192 (pending (start True [Data fresh_reply]) @ fresh_reply)"
    by (simp_all add: start_def fresh_reply_def subject_def CRLF_def)
  have u: "utf8_ok (map of_char fresh_reply)"
    by (simp add: fresh_reply_def subject_def CRLF_def cont_byte_def)
  have s: "asserted_spec ''2024-05-01 10:00:00'' fresh_reply"
    by (simp add: asserted_spec_def fresh_reply_def subject_def marker_def CRLF_def)
  have l: "length [1::nat] \<le> 4300" by simp
  show ?thesis
    using round_trip_check [OF a p u l, of "''2024-05-01 10:00:00''"
        "''Wed, 01 May 2024 10:00:00 +0000''" True smtp_accepting] c a u s
    by blast
qed

text \<open>
  C1 as stated fails. The message submitted on 1 May 2024 has not reached the mailbox,
  whose latest message is left from an earlier run and has another subject and no
  marker: the script announces that the test email is readable, and ends as usual with
  status 0.
\<close>

theorem round_trip_counterexample:
  "(case test_imap_read (start True stale_mailbox) of
      (res, w) \<Rightarrow>
        res = Inr ()
        \<and> Print (arrow_left @ '' '' @ stale_reply) \<in> set (trace w)
        \<and> Print (LF # party @ '' SUCCESS! The E2E test email is readable via IMAP!'')
             \<in> set (trace w)
        \<and> last (trace w) = Print (LF # ''=== IMAP Test Complete ===''))
   \<and> \<not> py_in (subject ''2024-05-01 10:00:00'') stale_reply
   \<and> \<not> py_in marker stale_reply"
proof -
  have "case test_imap_read (start True stale_mailbox) of
      (res, w) \<Rightarrow>
        res = Inr ()
        \<and> Print (arrow_left @ '' '' @ stale_reply) \<in> set (trace w)
        \<and> Print (LF # party @ '' SUCCESS! The E2E test email is readable via IMAP!'')
             \<in> set (trace w)
        \<and> last (trace w) = Print (LF # ''=== IMAP Test Complete ==='')"
    by (simp add: test_imap_read_def fetch_latest_def int_of_group_def send_command_e2e_def
        stale_mailbox_def stale_reply_def imap_greeting_def subject_def unlines_def
        match_exists_at_def take_digits.simps digit_at_def nd_table_def py_int_def py_str_def
        str_nat.simps run_defs)
  moreover have "\<not> py_in (subject ''2024-05-01 10:00:00'') stale_reply"
    by (simp add: stale_reply_def subject_def unlines_def CRLF_def LF_def)
  moreover have "\<not> py_in marker stale_reply"
    by (simp add: stale_reply_def subject_def marker_def unlines_def CRLF_def LF_def)
  ultimately show ?thesis by blast
qed

end
